theory Spec2Isabelle
  imports Complex_Main "HOL-Library.Multiset" "HOL-Library.AList"
begin

section \<open>Exceptions\<close>

text \<open>
  Every \<^verbatim>\<open>raise\<close> of the modelled functions is a value: one constructor per raise site,
  and \<open>class_of\<close> gives the Python exception class of the site (what an
  \<^verbatim>\<open>except\<close> clause matches on).
\<close>

datatype exc_class =
    NotInFileError | EbasFileError | VariableDefinitionError | NotImplementedError
  | IOError | ValueError | KeyError | IndexError | PlainException
  | DataCoverageError | MetaDataError | AttributeError

datatype error =
    VarNotInFile            \<comment> \<open>\<^verbatim>\<open>_get_var_cols\<close>: no column matches the variable\<close>
  | NoneOfVarsInFile        \<comment> \<open>\<^verbatim>\<open>read_file\<close>: no requested variable resolved\<close>
  | RequireWavelength       \<comment> \<open>\<^verbatim>\<open>read_file\<close>: column has a wavelength, variable has none\<close>
  | LocationNotImplemented  \<comment> \<open>\<^verbatim>\<open>read_file\<close>: column without wavelength but with location\<close>
  | NoPreferredMatrix       \<comment> \<open>\<^verbatim>\<open>_find_best_data_column\<close>: column matrix, no preference\<close>
  | CannotInferStatistics   \<comment> \<open>\<^verbatim>\<open>_find_best_data_column\<close>: no statistics in column or file\<close>
  | NoStatisticsMatch       \<comment> \<open>\<^verbatim>\<open>_find_best_data_column\<close>: "this should not happen"\<close>
  | NotUniqueColumn         \<comment> \<open>\<^verbatim>\<open>read_file\<close>: "Something went wrong...please debug"\<close>
  | AllColumnsNaN           \<comment> \<open>\<^verbatim>\<open>read_file\<close>: all data columns of the variables are NaN\<close>
  | MissingMetaKey string   \<comment> \<open>\<^verbatim>\<open>read_file\<close>: \<^verbatim>\<open>meta[key]\<close> on a missing key\<close>
  | MissingVarData string   \<comment> \<open>\<^verbatim>\<open>read\<close>: \<^verbatim>\<open>station_data[var]\<close> on a variable without data\<close>
  | ShapeMismatch           \<comment> \<open>\<^verbatim>\<open>read\<close>: slice assignment of a vector of another length\<close>
  | VarNotInStation         \<comment> \<open>\<^verbatim>\<open>merge_station_data\<close>: input lacks the variable\<close>
  | PrefAttrMissing         \<comment> \<open>\<^verbatim>\<open>merge_station_data\<close>: input lacks the preference attribute\<close>
  | SeriesConversionFailed  \<comment> \<open>\<^verbatim>\<open>merge_station_data\<close>: \<^verbatim>\<open>_to_ts_helper\<close> failed\<close>
  | TsTypeMissing           \<comment> \<open>\<^verbatim>\<open>merge_station_data\<close>: no ts_type although fill_missing_nan\<close>
  | MixedProfileAndFlat     \<comment> \<open>\<^verbatim>\<open>merge_station_data\<close>: "some ... contain altitude info, others not"\<close>
  | ProfileNotSingleTime    \<comment> \<open>\<^verbatim>\<open>merge_station_data\<close>: profile with several timestamps\<close>
  | PopFromEmptyList        \<comment> \<open>\<^verbatim>\<open>merge_station_data\<close>: \<^verbatim>\<open>stats.pop(0)\<close> on an empty list\<close>
  | MergeOtherFailed string \<comment> \<open>an error raised inside \<^verbatim>\<open>StationData.merge_other\<close>\<close>
  | SortKeyMissing          \<comment> \<open>\<^verbatim>\<open>merge_station_data\<close>: \<^verbatim>\<open>s[pref_attr]\<close> on a missing key\<close>
  | NotASeries              \<comment> \<open>\<^verbatim>\<open>merge_station_data\<close>: a Series method on another object\<close>
  | InterpBadArrays         \<comment> \<open>\<^verbatim>\<open>numpy.interp\<close>: sample points empty, of another length or no array\<close>

fun class_of :: "error \<Rightarrow> exc_class" where
  "class_of VarNotInFile = NotInFileError"
| "class_of NoneOfVarsInFile = NotInFileError"
| "class_of RequireWavelength = VariableDefinitionError"
| "class_of LocationNotImplemented = NotImplementedError"
| "class_of NoPreferredMatrix = IOError"
| "class_of CannotInferStatistics = EbasFileError"
| "class_of NoStatisticsMatch = ValueError"
| "class_of NotUniqueColumn = PlainException"
| "class_of AllColumnsNaN = EbasFileError"
| "class_of (MissingMetaKey k) = KeyError"
| "class_of (MissingVarData v) = KeyError"
| "class_of ShapeMismatch = ValueError"
| "class_of VarNotInStation = DataCoverageError"
| "class_of PrefAttrMissing = MetaDataError"
| "class_of SeriesConversionFailed = ValueError"
| "class_of TsTypeMissing = MetaDataError"
| "class_of MixedProfileAndFlat = ValueError"
| "class_of ProfileNotSingleTime = NotImplementedError"
| "class_of PopFromEmptyList = IndexError"
| "class_of (MergeOtherFailed m) = PlainException"
| "class_of SortKeyMissing = KeyError"
| "class_of NotASeries = AttributeError"
| "class_of InterpBadArrays = ValueError"

section \<open>Parsed files and variable specifications\<close>

text \<open>
  A float is a real number or NaN (\<open>None\<close>). The numbers the modelled code compares and
  subtracts (wavelengths, altitudes) are taken as exact reals.
\<close>

type_synonym pyfloat = "real option"

text \<open>
  One column definition of a NASA Ames file (\<^verbatim>\<open>EbasColDef\<close>, a dictionary): the component
  name and the optional attributes the reader looks at. \<^verbatim>\<open>'key' in col_info\<close> is
  \<open>\<noteq> None\<close>. The wavelength attribute is held as the number that
  \<^verbatim>\<open>get_wavelength_nm()\<close> returns for it.
\<close>

record col_def =
  col_name :: string
  col_matrix :: "string option"
  col_statistics :: "string option"
  col_wavelength :: "real option"
  col_location :: "string option"
  col_unit :: "string option"

text \<open>
  The file's meta dictionary, restricted to the keys \<^verbatim>\<open>read_file\<close> reads. A key that
  may be missing is an option; numeric entries are held as the number \<^verbatim>\<open>float(...)\<close>
  gives for them.
\<close>

record file_meta =
  meta_resolution_code :: "string option"
  meta_station_altitude :: "real option"
  meta_measurement_height :: "real option"
  meta_station_longitude :: "real option"
  meta_station_latitude :: "real option"
  meta_station_name :: "string option"
  meta_instrument_name :: "string option"
  meta_instrument_type :: "string option"
  meta_matrix :: "string option"
  meta_statistics :: "string option"

text \<open>
  A parsed file (\<^verbatim>\<open>EbasNasaAmesFile\<close>): the column definitions, the data matrix row by
  row (each row holds one value per column definition), the time stamps, the meta
  dictionary and the file-level attributes \<^verbatim>\<open>file.matrix\<close>, \<^verbatim>\<open>file.unit\<close>,
  \<^verbatim>\<open>file['data_originator']\<close> and \<^verbatim>\<open>file['revision_date']\<close>.
\<close>

record ebas_file =
  var_defs :: "col_def list"
  data :: "pyfloat list list"
  time_stamps :: "int list"
  meta :: file_meta
  file_matrix :: string
  file_unit :: string
  data_originator :: string
  revision_date :: int

text \<open>The EBAS import constraints of one Aerocom variable (\<^verbatim>\<open>EbasVarInfo\<close>).\<close>

record ebas_var_info =
  info_var_name :: string
  component :: "string list"
  info_matrix :: "string list option"
  info_statistics :: "string list option"

text \<open>\<^verbatim>\<open>file.data[:, colnum]\<close> and the number of NaN in it.\<close>

definition data_column :: "ebas_file \<Rightarrow> nat \<Rightarrow> pyfloat list" where
  "data_column file colnum = map (\<lambda>row. row ! colnum) (data file)"

definition nan_count :: "pyfloat list \<Rightarrow> nat" where
  "nan_count xs = length (filter (\<lambda>x. x = None) xs)"

section \<open>Class constants of ReadEbas\<close>

definition PREFER_STATISTICS :: "string list" where
  "PREFER_STATISTICS = [''arithmetic mean'', ''median'']"

definition IGNORE_STATISTICS :: "string list" where
  "IGNORE_STATISTICS = [''percentile:15.87'', ''percentile:84.13'']"

definition WAVELENGTH_TOL_NM :: real where
  "WAVELENGTH_TOL_NM = 50"

definition MERGE_STATIONS :: "string \<rightharpoonup> string" where
  "MERGE_STATIONS = [''Birkenes'' \<mapsto> ''Birkenes II'']"

definition TS_TYPE_CODES :: "string \<rightharpoonup> string" where
  "TS_TYPE_CODES = [''1h'' \<mapsto> ''hourly'', ''1d'' \<mapsto> ''daily'', ''1mo'' \<mapsto> ''monthly'']"

section \<open>Column resolver\<close>

subsection \<open>\<^verbatim>\<open>ReadEbas._get_var_cols\<close>\<close>

definition col_ok :: "ebas_var_info \<Rightarrow> ebas_file \<Rightarrow> col_def \<Rightarrow> bool" where
  "col_ok info file col_info =
     (let ok = (case info_matrix info of
                  None \<Rightarrow> True
                | Some ms \<Rightarrow>
                    (let matrix = (case col_matrix col_info of
                                     Some m \<Rightarrow> m
                                   | None \<Rightarrow> file_matrix file)
                     in matrix \<in> set ms))
      in case col_statistics col_info of
           None \<Rightarrow> ok
         | Some s \<Rightarrow>
             if \<not> ok then False
             else if s \<in> set IGNORE_STATISTICS then False
             else (case info_statistics info of
                     None \<Rightarrow> True
                   | Some ss \<Rightarrow> s \<in> set ss))"

fun col_matches_from :: "ebas_var_info \<Rightarrow> ebas_file \<Rightarrow> nat \<Rightarrow> col_def list \<Rightarrow> nat list" where
  "col_matches_from info file colnum [] = []"
| "col_matches_from info file colnum (col_info # rest) =
     (if col_name col_info \<in> set (component info) \<and> col_ok info file col_info
      then colnum # col_matches_from info file (Suc colnum) rest
      else col_matches_from info file (Suc colnum) rest)"

definition get_var_cols :: "ebas_var_info \<Rightarrow> ebas_file \<Rightarrow> error + nat list" where
  "get_var_cols info file =
     (let col_matches = col_matches_from info file 0 (var_defs file)
      in if length col_matches = 0 then Inl VarNotInFile else Inr col_matches)"

subsection \<open>The wavelength loop of \<^verbatim>\<open>ReadEbas.read_file\<close>\<close>

text \<open>
  The loop over \<^verbatim>\<open>col_matches\<close> with its two loop variables \<^verbatim>\<open>min_diff_wvl\<close> and
  \<^verbatim>\<open>matches\<close>; \<open>wvl\<close> is \<^verbatim>\<open>var_info.wavelength_nm\<close> of the Aerocom variable.
\<close>

fun wvl_loop :: "ebas_file \<Rightarrow> real option \<Rightarrow> nat list \<Rightarrow> real \<Rightarrow> nat list \<Rightarrow> error + nat list" where
  "wvl_loop file wvl [] min_diff_wvl matches = Inr matches"
| "wvl_loop file wvl (colnum # rest) min_diff_wvl matches =
     (let colinfo = var_defs file ! colnum in
      case col_wavelength colinfo of
        Some wvl_col \<Rightarrow>
          (case wvl of
             None \<Rightarrow> Inl RequireWavelength
           | Some w \<Rightarrow>
               (let wvl_low = w - WAVELENGTH_TOL_NM;
                    wvl_high = w + WAVELENGTH_TOL_NM
                in if wvl_low \<le> wvl_col \<and> wvl_col \<le> wvl_high
                   then (let wvl_diff = wvl_col - w
                         in if \<bar>wvl_diff\<bar> < \<bar>min_diff_wvl\<bar>
                            then wvl_loop file wvl rest wvl_diff [colnum]
                            else if wvl_diff = min_diff_wvl
                            then wvl_loop file wvl rest min_diff_wvl (matches @ [colnum])
                            else wvl_loop file wvl rest min_diff_wvl matches)
                   else wvl_loop file wvl rest min_diff_wvl matches))
      | None \<Rightarrow>
          (case col_location colinfo of
             Some l \<Rightarrow> Inl LocationNotImplemented
           | None \<Rightarrow> wvl_loop file wvl rest min_diff_wvl (matches @ [colnum])))"

definition wvl_matches :: "ebas_file \<Rightarrow> real option \<Rightarrow> nat list \<Rightarrow> error + nat list" where
  "wvl_matches file wvl col_matches = wvl_loop file wvl col_matches 1000000 []"

subsection \<open>\<^verbatim>\<open>ReadEbas._find_best_data_column\<close>\<close>

text \<open>\<^verbatim>\<open>list.index\<close>: the first position of an element (called on members only).\<close>

fun index_of :: "'a list \<Rightarrow> 'a \<Rightarrow> nat" where
  "index_of [] y = 0"
| "index_of (x # xs) y = (if x = y then 0 else Suc (index_of xs y))"

text \<open>\<^verbatim>\<open>numpy.argmin\<close> of a non-empty vector: the first position of the minimum.\<close>

fun argmin :: "nat list \<Rightarrow> nat" where
  "argmin [] = 0"
| "argmin [x] = 0"
| "argmin (x # y # ys) =
     (let j = argmin (y # ys) in if x \<le> (y # ys) ! j then 0 else Suc j)"

fun matrix_loop ::
  "ebas_file \<Rightarrow> string list option \<Rightarrow> nat list \<Rightarrow> nat \<Rightarrow> nat list \<Rightarrow> error + (nat \<times> nat list)" where
  "matrix_loop file preferred_matrix [] idx_best matrix_matches = Inr (idx_best, matrix_matches)"
| "matrix_loop file preferred_matrix (colnum # rest) idx_best matrix_matches =
     (case col_matrix (var_defs file ! colnum) of
        None \<Rightarrow> matrix_loop file preferred_matrix rest idx_best matrix_matches
      | Some matrix \<Rightarrow>
          (case preferred_matrix of
             None \<Rightarrow> Inl NoPreferredMatrix
           | Some pm \<Rightarrow>
               if matrix \<in> set pm
               then (let idx = index_of pm matrix
                     in if idx < idx_best
                        then matrix_loop file preferred_matrix rest idx [colnum]
                        else if idx = idx_best
                        then matrix_loop file preferred_matrix rest idx_best
                               (matrix_matches @ [colnum])
                        else matrix_loop file preferred_matrix rest idx_best matrix_matches)
               else matrix_loop file preferred_matrix rest idx_best matrix_matches))"

definition matrix_stage :: "nat list \<Rightarrow> ebas_var_info \<Rightarrow> ebas_file \<Rightarrow> error + nat list" where
  "matrix_stage cols info file =
     (case matrix_loop file (info_matrix info) cols 9999 [] of
        Inl e \<Rightarrow> Inl e
      | Inr (idx_best_matrix_found, matrix_matches) \<Rightarrow>
          Inr (if idx_best_matrix_found = 9999 then cols else matrix_matches))"

fun statistics_loop ::
  "ebas_file \<Rightarrow> string list \<Rightarrow> nat list \<Rightarrow> nat \<Rightarrow> nat list \<Rightarrow> error + nat list" where
  "statistics_loop file preferred_statistics [] idx_best result_col = Inr result_col"
| "statistics_loop file preferred_statistics (colnum # rest) idx_best result_col =
     (case (case col_statistics (var_defs file ! colnum) of
              Some s \<Rightarrow> Some s
            | None \<Rightarrow> meta_statistics (meta file)) of
        None \<Rightarrow> Inl CannotInferStatistics
      | Some stats \<Rightarrow>
          if stats \<in> set preferred_statistics
          then (let idx = index_of preferred_statistics stats
                in if idx < idx_best
                   then statistics_loop file preferred_statistics rest idx [colnum]
                   else if idx = idx_best
                   then statistics_loop file preferred_statistics rest idx_best
                          (result_col @ [colnum])
                   else statistics_loop file preferred_statistics rest idx_best result_col)
          else statistics_loop file preferred_statistics rest idx_best result_col)"

definition statistics_stage :: "nat list \<Rightarrow> ebas_var_info \<Rightarrow> ebas_file \<Rightarrow> error + nat list" where
  "statistics_stage matrix_matches info file =
     statistics_loop file
       (case info_statistics info of None \<Rightarrow> PREFER_STATISTICS | Some ss \<Rightarrow> ss)
       matrix_matches 9999 []"

text \<open>The last step: the column of \<open>result_col\<close> with the fewest NaN.\<close>

definition num_invalid :: "ebas_file \<Rightarrow> nat list \<Rightarrow> nat list" where
  "num_invalid file result_col = map (\<lambda>colnum. nan_count (data_column file colnum)) result_col"

definition fewest_nan :: "ebas_file \<Rightarrow> nat list \<Rightarrow> nat list" where
  "fewest_nan file result_col = [result_col ! argmin (num_invalid file result_col)]"

definition find_best_data_column ::
  "nat list \<Rightarrow> ebas_var_info \<Rightarrow> ebas_file \<Rightarrow> error + nat list" where
  "find_best_data_column cols info file =
     (case matrix_stage cols info file of
        Inl e \<Rightarrow> Inl e
      | Inr matrix_matches \<Rightarrow>
          if length matrix_matches = 1 then Inr matrix_matches
          else (case statistics_stage matrix_matches info file of
                  Inl e \<Rightarrow> Inl e
                | Inr result_col \<Rightarrow>
                    if length result_col \<noteq> 1
                    then (if length result_col = 0 then Inl NoStatisticsMatch
                          else Inr (fewest_nan file result_col))
                    else Inr result_col))"

section \<open>Station extractor: \<^verbatim>\<open>ReadEbas.read_file\<close>\<close>

text \<open>
  What the reader knows about the requested variables: \<^verbatim>\<open>var_info.wavelength_nm\<close> of the
  Aerocom variable (\<^verbatim>\<open>const.VAR_PARAM\<close>) and the EBAS import constraints
  (\<^verbatim>\<open>EbasVarInfo(var)\<close>, read from ebas_config.ini). Both tables are outside the reader's
  module and are taken as parameters.
\<close>

record reader_config =
  wavelength_nm :: "string \<Rightarrow> real option"
  ebas_info :: "string \<Rightarrow> ebas_var_info"

text \<open>
  The station record that \<^verbatim>\<open>read_file\<close> returns (\<^verbatim>\<open>StationData\<close>, a dictionary). The
  per-variable data vectors (\<^verbatim>\<open>data_out[var]\<close>) and \<^verbatim>\<open>data_out['var_info']\<close> are
  dictionaries in insertion order.
\<close>

record station_data =
  sd_ts_type :: string
  sd_stat_lon :: real
  sd_stat_lat :: real
  sd_stat_alt :: real
  sd_altitude :: real
  sd_station_name :: string
  sd_station_name_orig :: "string option"
  sd_PI :: string
  sd_instrument_name :: string
  sd_instrument_type :: string
  sd_matrix :: string
  sd_revision_date :: int
  sd_var_info :: "(string \<times> col_def) list"
  sd_var_data :: "(string \<times> pyfloat list) list"
  sd_dtime :: "int list"
  sd_contains_vars :: "string list"

subsection \<open>Resolving the columns of the requested variables\<close>

text \<open>
  The first loop of \<^verbatim>\<open>read_file\<close>. \<^verbatim>\<open>var_cols\<close> is a dictionary: assigning to a key that
  is there keeps its place (\<open>AList.update\<close>). Only \<^verbatim>\<open>NotInFileError\<close> of
  \<^verbatim>\<open>_get_var_cols\<close> is caught.
\<close>

fun resolve_loop ::
  "reader_config \<Rightarrow> ebas_file \<Rightarrow> string list \<Rightarrow> (string \<times> nat list) list
   \<Rightarrow> error + (string \<times> nat list) list" where
  "resolve_loop cfg file [] var_cols = Inr var_cols"
| "resolve_loop cfg file (var # rest) var_cols =
     (case get_var_cols (ebas_info cfg var) file of
        Inl e \<Rightarrow>
          if class_of e = NotInFileError then resolve_loop cfg file rest var_cols
          else Inl e
      | Inr col_matches \<Rightarrow>
          (case wvl_matches file (wavelength_nm cfg var) col_matches of
             Inl e \<Rightarrow> Inl e
           | Inr matches \<Rightarrow>
               if matches \<noteq> []
               then resolve_loop cfg file rest (AList.update var matches var_cols)
               else resolve_loop cfg file rest var_cols))"

text \<open>The second loop: a variable with several columns left gets its best column.\<close>

fun best_cols_loop ::
  "reader_config \<Rightarrow> ebas_file \<Rightarrow> (string \<times> nat list) list \<Rightarrow> error + (string \<times> nat list) list" where
  "best_cols_loop cfg file [] = Inr []"
| "best_cols_loop cfg file ((var, cols) # rest) =
     (if length cols > 1
      then (case find_best_data_column cols (ebas_info cfg var) file of
              Inl e \<Rightarrow> Inl e
            | Inr col \<Rightarrow>
                (case best_cols_loop cfg file rest of
                   Inl e \<Rightarrow> Inl e
                 | Inr r \<Rightarrow> Inr ((var, col) # r)))
      else (case best_cols_loop cfg file rest of
              Inl e \<Rightarrow> Inl e
            | Inr r \<Rightarrow> Inr ((var, cols) # r)))"

definition resolve_columns ::
  "reader_config \<Rightarrow> ebas_file \<Rightarrow> string list \<Rightarrow> error + (string \<times> nat list) list" where
  "resolve_columns cfg file vars_to_read =
     (case resolve_loop cfg file vars_to_read [] of
        Inl e \<Rightarrow> Inl e
      | Inr var_cols \<Rightarrow>
          if \<not> length var_cols > 0 then Inl NoneOfVarsInFile
          else best_cols_loop cfg file var_cols)"

subsection \<open>Station meta data\<close>

definition require :: "string \<Rightarrow> 'a option \<Rightarrow> error + 'a" where
  "require key v = (case v of None \<Rightarrow> Inl (MissingMetaKey key) | Some x \<Rightarrow> Inr x)"

text \<open>
  The block of \<^verbatim>\<open>read_file\<close> that fills the station's meta data, in the order in which it
  reads the keys of \<^verbatim>\<open>file.meta\<close>; a missing \<^verbatim>\<open>measurement_height\<close> is 0.
\<close>

definition bind_err :: "error + 'a \<Rightarrow> ('a \<Rightarrow> error + 'b) \<Rightarrow> error + 'b" where
  "bind_err r f = (case r of Inl e \<Rightarrow> Inl e | Inr x \<Rightarrow> f x)"

definition station_header :: "ebas_file \<Rightarrow> error + station_data" where
  "station_header file =
     (let m = meta file in
      bind_err (require ''resolution_code'' (meta_resolution_code m)) (\<lambda>tres_code.
      bind_err (require ''station_altitude'' (meta_station_altitude m)) (\<lambda>stat_alt.
      bind_err (require ''station_longitude'' (meta_station_longitude m)) (\<lambda>stat_lon.
      bind_err (require ''station_latitude'' (meta_station_latitude m)) (\<lambda>stat_lat.
      bind_err (require ''station_name'' (meta_station_name m)) (\<lambda>name.
      bind_err (require ''instrument_name'' (meta_instrument_name m)) (\<lambda>instrument_name.
      bind_err (require ''instrument_type'' (meta_instrument_type m)) (\<lambda>instrument_type.
      bind_err (require ''matrix'' (meta_matrix m)) (\<lambda>matrix.
        Inr \<lparr> sd_ts_type = (case TS_TYPE_CODES tres_code of
                             Some t \<Rightarrow> t | None \<Rightarrow> ''undefined''),
              sd_stat_lon = stat_lon,
              sd_stat_lat = stat_lat,
              sd_stat_alt = stat_alt,
              sd_altitude = stat_alt + (case meta_measurement_height m of
                                          Some h \<Rightarrow> h | None \<Rightarrow> 0),
              sd_station_name = (case MERGE_STATIONS name of
                                   Some n \<Rightarrow> n | None \<Rightarrow> name),
              sd_station_name_orig = (case MERGE_STATIONS name of
                                        Some n \<Rightarrow> Some name | None \<Rightarrow> None),
              sd_PI = data_originator file,
              sd_instrument_name = instrument_name,
              sd_instrument_type = instrument_type,
              sd_matrix = matrix,
              sd_revision_date = revision_date file,
              sd_var_info = [],
              sd_var_data = [],
              sd_dtime = [],
              sd_contains_vars = [] \<rparr>)))))))))"

subsection \<open>Extracting the data columns\<close>

text \<open>A column whose samples are all NaN: \<^verbatim>\<open>np.isnan(data).sum() == totnum\<close>.\<close>

definition all_nan :: "ebas_file \<Rightarrow> nat \<Rightarrow> bool" where
  "all_nan file colnum = (nan_count (data_column file colnum) = length (data file))"

text \<open>The column definition stored with the variable, its missing attributes filled in.\<close>

definition fill_col :: "ebas_file \<Rightarrow> string \<Rightarrow> col_def \<Rightarrow> col_def" where
  "fill_col file matrix c =
     c \<lparr> col_unit := (case col_unit c of None \<Rightarrow> Some (file_unit file) | Some u \<Rightarrow> Some u),
         col_matrix := (case col_matrix c of None \<Rightarrow> Some matrix | Some m \<Rightarrow> Some m),
         col_statistics := (case col_statistics c of
                              None \<Rightarrow> meta_statistics (meta file)
                            | Some s \<Rightarrow> Some s) \<rparr>"

fun extract_loop ::
  "ebas_file \<Rightarrow> (string \<times> nat list) list \<Rightarrow> station_data \<Rightarrow> error + station_data" where
  "extract_loop file [] data_out = Inr data_out"
| "extract_loop file ((var, colnums) # rest) data_out =
     (if length colnums \<noteq> 1 then Inl NotUniqueColumn
      else (let colnum = colnums ! 0 in
            if all_nan file colnum then extract_loop file rest data_out
            else extract_loop file rest
                   (data_out \<lparr>
                      sd_var_data := AList.update var (data_column file colnum)
                                       (sd_var_data data_out),
                      sd_var_info := AList.update var
                                       (fill_col file (sd_matrix data_out)
                                          (var_defs file ! colnum))
                                       (sd_var_info data_out),
                      sd_contains_vars := sd_contains_vars data_out @ [var] \<rparr>)))"

text \<open>
  \<^verbatim>\<open>read_file\<close> as \<^verbatim>\<open>read\<close> calls it (both \<^verbatim>\<open>_vars_to_read\<close> and
  \<^verbatim>\<open>_vars_to_compute\<close> given), on the parsed file.
\<close>

definition read_file ::
  "reader_config \<Rightarrow> ebas_file \<Rightarrow> string list \<Rightarrow> string list \<Rightarrow> error + station_data" where
  "read_file cfg file vars_to_read vars_to_compute =
     (case resolve_columns cfg file vars_to_read of
        Inl e \<Rightarrow> Inl e
      | Inr var_cols \<Rightarrow>
          (case station_header file of
             Inl e \<Rightarrow> Inl e
           | Inr data_out \<Rightarrow>
               (case extract_loop file var_cols data_out of
                  Inl e \<Rightarrow> Inl e
                | Inr out \<Rightarrow>
                    if length (sd_contains_vars out) = 0 then Inl AllColumnsNaN
                    else Inr (out \<lparr> sd_dtime := time_stamps file,
                                    sd_contains_vars :=
                                      sd_contains_vars out @ vars_to_compute \<rparr>))))"

section \<open>Station store: \<^verbatim>\<open>UngriddedData\<close> as \<^verbatim>\<open>ReadEbas.read\<close> fills it\<close>

text \<open>
  One row of the flat table \<^verbatim>\<open>_data\<close>: the seven columns that \<^verbatim>\<open>read\<close> writes. A cell
  that was never written holds NaN.
\<close>

record row =
  r_meta_key :: pyfloat
  r_time :: pyfloat
  r_lat :: pyfloat
  r_lon :: pyfloat
  r_alt :: pyfloat
  r_var_idx :: pyfloat
  r_value :: pyfloat

definition nan_row :: row where
  "nan_row = \<lparr> r_meta_key = None, r_time = None, r_lat = None, r_lon = None,
               r_alt = None, r_var_idx = None, r_value = None \<rparr>"

record meta_entry =
  me_station_name :: string
  me_station_name_orig :: "string option"
  me_ts_type :: string
  me_instrument_name :: string
  me_revision_date :: int
  me_filename :: string
  me_var_info :: "(string \<times> col_def) list"
  me_variables :: "string list"

record ungridded_data =
  u_data :: "row list"
  u_ROWNO :: nat
  u_CHUNKSIZE :: nat
  u_metadata :: "(nat \<times> meta_entry) list"
  u_meta_idx :: "(nat \<times> (string \<times> nat list) list) list"
  u_var_idx :: "(string \<times> int) list"

text \<open>
  Modelled from the spec: the class \<^verbatim>\<open>UngriddedData\<close> is not under src/. A new store has
  \<^verbatim>\<open>_ROWNO\<close> rows of NaN and empty registries; the initial number of rows and the chunk
  size are class constants of the missing class and are parameters here.
\<close>

definition new_ungridded_data :: "nat \<Rightarrow> nat \<Rightarrow> ungridded_data" where
  "new_ungridded_data rowno chunksize =
     \<lparr> u_data = replicate rowno nan_row, u_ROWNO = rowno, u_CHUNKSIZE = chunksize,
       u_metadata = [], u_meta_idx = [], u_var_idx = [] \<rparr>"

text \<open>
  Modelled from the spec: \<^verbatim>\<open>UngriddedData.add_chunk\<close> is not under src/. The spec has the
  store grow in chunks and never shrink, and the call site in \<^verbatim>\<open>read\<close> says "if totnum <
  data_obj._CHUNKSIZE, then the latter is used": the table is extended by
  \<open>max sz CHUNKSIZE\<close> rows of NaN.
\<close>

definition add_chunk :: "nat \<Rightarrow> ungridded_data \<Rightarrow> ungridded_data" where
  "add_chunk sz d =
     (let n = (if sz < u_CHUNKSIZE d then u_CHUNKSIZE d else sz)
      in d \<lparr> u_data := u_data d @ replicate n nan_row, u_ROWNO := u_ROWNO d + n \<rparr>)"

subsection \<open>Slice assignment\<close>

text \<open>
  \<^verbatim>\<open>_data[start:stop, col] = v\<close>. The slice is clipped to the table; a scalar is written
  to every row of it, a vector must have the length of the slice or length 1 (numpy
  broadcasts it), else numpy raises ValueError.
\<close>

definition slice_len :: "nat \<Rightarrow> nat \<Rightarrow> row list \<Rightarrow> nat" where
  "slice_len start stop tbl = min stop (length tbl) - start"

definition assign_scalar ::
  "nat \<Rightarrow> nat \<Rightarrow> (row \<Rightarrow> pyfloat \<Rightarrow> row) \<Rightarrow> pyfloat \<Rightarrow> row list \<Rightarrow> row list" where
  "assign_scalar start stop upd v tbl =
     (let n = slice_len start stop tbl
      in take start tbl @ map (\<lambda>r. upd r v) (take n (drop start tbl)) @ drop (start + n) tbl)"

definition assign_vector ::
  "nat \<Rightarrow> nat \<Rightarrow> (row \<Rightarrow> pyfloat \<Rightarrow> row) \<Rightarrow> pyfloat list \<Rightarrow> row list \<Rightarrow> error + row list" where
  "assign_vector start stop upd vs tbl =
     (let n = slice_len start stop tbl
      in if length vs = n
         then Inr (take start tbl @ map2 upd (take n (drop start tbl)) vs @ drop (start + n) tbl)
         else if length vs = 1
         then Inr (assign_scalar start stop upd (vs ! 0) tbl)
         else Inl ShapeMismatch)"

subsection \<open>The loops of \<^verbatim>\<open>read\<close>\<close>

record read_state =
  data_obj :: ungridded_data
  idx :: nat
  meta_key :: nat
  var_count_glob :: int
  files_failed :: "string list"

text \<open>
  One pass of the loop over \<^verbatim>\<open>vars_avail\<close>: the rows \<open>start..<stop\<close> of the table are
  written, and the variable gets its \<^verbatim>\<open>var_idx\<close>: the one registered for its name, or
  the next value of the counter \<^verbatim>\<open>var_count_glob\<close>.
\<close>

definition write_var ::
  "station_data \<Rightarrow> nat \<Rightarrow> nat \<Rightarrow> string \<Rightarrow> read_state \<Rightarrow> error + read_state" where
  "write_var station_data num_times var_count var s =
     (case map_of (sd_var_data station_data) var of
        None \<Rightarrow> Inl (MissingVarData var)
      | Some values \<Rightarrow>
          (let d = data_obj s;
               start = idx s + var_count * num_times;
               stop = start + num_times;
               glob = (case map_of (u_var_idx d) var of
                         None \<Rightarrow> var_count_glob s + 1
                       | Some i \<Rightarrow> var_count_glob s);
               var_idx = (case map_of (u_var_idx d) var of
                            None \<Rightarrow> glob
                          | Some i \<Rightarrow> i);
               t1 = assign_scalar start stop (\<lambda>r v. r\<lparr>r_lat := v\<rparr>)
                      (Some (sd_stat_lat station_data)) (u_data d);
               t2 = assign_scalar start stop (\<lambda>r v. r\<lparr>r_lon := v\<rparr>)
                      (Some (sd_stat_lon station_data)) t1;
               t3 = assign_scalar start stop (\<lambda>r v. r\<lparr>r_alt := v\<rparr>)
                      (Some (sd_stat_alt station_data)) t2;
               t4 = assign_scalar start stop (\<lambda>r v. r\<lparr>r_meta_key := v\<rparr>)
                      (Some (real (meta_key s))) t3
           in case assign_vector start stop (\<lambda>r v. r\<lparr>r_time := v\<rparr>)
                     (map (\<lambda>t. Some (real_of_int t)) (sd_dtime station_data)) t4 of
                Inl e \<Rightarrow> Inl e
              | Inr t5 \<Rightarrow>
                  (case assign_vector start stop (\<lambda>r v. r\<lparr>r_value := v\<rparr>) values t5 of
                     Inl e \<Rightarrow> Inl e
                   | Inr t6 \<Rightarrow>
                       (case map_of (sd_var_info station_data) var of
                          None \<Rightarrow> Inl (MissingVarData var)
                        | Some var_info \<Rightarrow>
                            Inr (s \<lparr> data_obj := d
                                      \<lparr> u_data := assign_scalar start stop
                                                    (\<lambda>r v. r\<lparr>r_var_idx := v\<rparr>)
                                                    (Some (real_of_int var_idx)) t6,
                                        u_meta_idx :=
                                          AList.map_entry (meta_key s)
                                            (AList.update var [start..<stop])
                                            (u_meta_idx d),
                                        u_metadata :=
                                          AList.map_entry (meta_key s)
                                            (\<lambda>m. m\<lparr>me_var_info :=
                                                     AList.update var var_info (me_var_info m)\<rparr>)
                                            (u_metadata d),
                                        u_var_idx :=
                                          (case map_of (u_var_idx d) var of
                                             None \<Rightarrow> AList.update var var_idx (u_var_idx d)
                                           | Some i \<Rightarrow> u_var_idx d) \<rparr>,
                                    var_count_glob := glob \<rparr>)))))"

fun write_vars ::
  "station_data \<Rightarrow> nat \<Rightarrow> nat \<Rightarrow> string list \<Rightarrow> read_state \<Rightarrow> error + read_state" where
  "write_vars station_data num_times var_count [] s = Inr s"
| "write_vars station_data num_times var_count (var # rest) s =
     (case write_var station_data num_times var_count var s of
        Inl e \<Rightarrow> Inl e
      | Inr s' \<Rightarrow> write_vars station_data num_times (Suc var_count) rest s')"

text \<open>
  The part of the loop body after a successful \<^verbatim>\<open>read_file\<close>: the meta data entry, the
  growth of the table if \<^verbatim>\<open>idx + totnum >= _ROWNO\<close>, the rows of every variable, and
  the new \<^verbatim>\<open>idx\<close> and \<^verbatim>\<open>meta_key\<close>.
\<close>

definition append_station :: "string \<Rightarrow> station_data \<Rightarrow> read_state \<Rightarrow> error + read_state" where
  "append_station filename station_data s =
     (let d = data_obj s;
          entry = \<lparr> me_station_name = sd_station_name station_data,
                    me_station_name_orig = sd_station_name_orig station_data,
                    me_ts_type = sd_ts_type station_data,
                    me_instrument_name = sd_instrument_name station_data,
                    me_revision_date = sd_revision_date station_data,
                    me_filename = filename,
                    me_var_info = [],
                    me_variables = [] \<rparr>;
          d1 = d \<lparr> u_metadata := AList.update (meta_key s) entry (u_metadata d),
                   u_meta_idx := AList.update (meta_key s) [] (u_meta_idx d) \<rparr>;
          num_times = length (sd_dtime station_data);
          totnum = num_times * length (sd_contains_vars station_data);
          d2 = (if idx s + totnum \<ge> u_ROWNO d1 then add_chunk totnum d1 else d1);
          vars_avail = sd_contains_vars station_data
      in case write_vars station_data num_times 0 vars_avail (s \<lparr> data_obj := d2 \<rparr>) of
           Inl e \<Rightarrow> Inl e
         | Inr s' \<Rightarrow>
             Inr (s' \<lparr> data_obj := (data_obj s')
                         \<lparr> u_metadata :=
                             AList.map_entry (meta_key s)
                               (\<lambda>m. m\<lparr>me_variables := vars_avail\<rparr>)
                               (u_metadata (data_obj s')) \<rparr>,
                       idx := idx s + totnum,
                       meta_key := meta_key s + 1 \<rparr>))"

text \<open>
  The loop over the files. A file is its name, its parsed content and the variables to
  read from it (\<^verbatim>\<open>files_contain[i]\<close>). The \<^verbatim>\<open>except\<close> clause names two classes.
\<close>

definition caught :: "error \<Rightarrow> bool" where
  "caught e = (class_of e = NotInFileError \<or> class_of e = EbasFileError)"

fun read_loop ::
  "reader_config \<Rightarrow> string list \<Rightarrow> (string \<times> ebas_file \<times> string list) list
   \<Rightarrow> read_state \<Rightarrow> error + read_state" where
  "read_loop cfg vars_to_compute [] s = Inr s"
| "read_loop cfg vars_to_compute ((filename, file, vars_to_read) # rest) s =
     (case read_file cfg file vars_to_read vars_to_compute of
        Inl e \<Rightarrow>
          if caught e
          then read_loop cfg vars_to_compute rest (s \<lparr> files_failed := files_failed s @ [filename] \<rparr>)
          else Inl e
      | Inr station_data \<Rightarrow>
          (case append_station filename station_data s of
             Inl e \<Rightarrow> Inl e
           | Inr s' \<Rightarrow> read_loop cfg vars_to_compute rest s'))"

definition init_state :: "nat \<Rightarrow> nat \<Rightarrow> read_state" where
  "init_state rowno chunksize =
     \<lparr> data_obj = new_ungridded_data rowno chunksize, idx = 0, meta_key = 0,
       var_count_glob = - 1, files_failed = [] \<rparr>"

text \<open>
  \<^verbatim>\<open>read\<close>, from the list of files on: the loop, then the table is cut to the rows
  written, \<^verbatim>\<open>_data[:idx]\<close>. The result is the store and the list of failed files.
\<close>

definition trim :: "read_state \<Rightarrow> ungridded_data" where
  "trim s = (data_obj s) \<lparr> u_data := take (idx s) (u_data (data_obj s)) \<rparr>"

definition read ::
  "reader_config \<Rightarrow> nat \<Rightarrow> nat \<Rightarrow> string list \<Rightarrow> (string \<times> ebas_file \<times> string list) list
   \<Rightarrow> error + (ungridded_data \<times> string list)" where
  "read cfg rowno chunksize vars_to_compute files =
     (case read_loop cfg vars_to_compute files (init_state rowno chunksize) of
        Inl e \<Rightarrow> Inl e
      | Inr s \<Rightarrow> Inr (trim s, files_failed s))"

section \<open>Station merge engine: \<^verbatim>\<open>helpers.merge_station_data\<close>\<close>

text \<open>
  A station as the merge sees it. The data of a variable is a pandas Series (time stamps
  and values, in index order) or some other object; the other object carries the Series
  that \<^verbatim>\<open>_to_ts_helper\<close> converts it to, if the conversion succeeds. The altitude is a
  number, or the array of altitude levels of a profile.
\<close>

datatype var_data = Series "(int \<times> pyfloat) list" | NotSeries "(int \<times> pyfloat) list option"

datatype altitude = Scalar real | Levels "real list"

record station =
  st_vars :: "(string \<times> var_data) list"
  st_attrs :: "(string \<times> int) list"
  st_ts_type :: "string option"
  st_altitude :: altitude
  st_data_err :: "(string \<times> pyfloat list) list"

text \<open>
  Modelled from the spec: \<^verbatim>\<open>StationData.check_if_3d\<close>, \<^verbatim>\<open>StationData._to_ts_helper\<close> and
  \<^verbatim>\<open>StationData.get_var_ts_type\<close> are not under src/. The profile case is the one of an
  input that "carries an altitude-resolved variable" (the error message of the merge:
  "contain altitude info (suggesting profile data)"); the conversion turns the data of
  the variable into a Series or fails; the temporal resolution of a station is known or
  a MetaDataError is raised.
\<close>

definition check_if_3d :: "station \<Rightarrow> string \<Rightarrow> bool" where
  "check_if_3d stat var = (case st_altitude stat of Levels l \<Rightarrow> True | Scalar a \<Rightarrow> False)"

definition to_ts_helper :: "station \<Rightarrow> string \<Rightarrow> error + station" where
  "to_ts_helper stat var =
     (case map_of (st_vars stat) var of
        Some (NotSeries (Some ts)) \<Rightarrow>
          Inr (stat \<lparr> st_vars := AList.update var (Series ts) (st_vars stat) \<rparr>)
      | Some (Series ts) \<Rightarrow> Inr stat
      | _ \<Rightarrow> Inl NotASeries)"

definition get_var_ts_type :: "station \<Rightarrow> string \<Rightarrow> error + string" where
  "get_var_ts_type stat var =
     (case st_ts_type stat of None \<Rightarrow> Inl TsTypeMissing | Some t \<Rightarrow> Inr t)"

text \<open>
  The merged station: in the flat case the station that \<^verbatim>\<open>merge_other\<close> built up, in the
  profile case the station with the array of the variable on the vertical grid (one
  column per time stamp, sorted by time) and, if there are errors, the array of the
  errors.
\<close>

record profile_array =
  pa_time :: "int list"
  pa_altitude :: "real list"
  pa_columns :: "pyfloat list list"

datatype merged_station =
    Flat station
  | Profile station profile_array "pyfloat list list option"

text \<open>
  The methods of \<^verbatim>\<open>StationData\<close> that do the merging itself and the default vertical
  grid \<^verbatim>\<open>const.make_default_vert_grid()\<close> are outside the module: parameters.
\<close>

record merge_methods =
  merge_other :: "station \<Rightarrow> station \<Rightarrow> string \<Rightarrow> error + station"
  merge_meta_same_station :: "station \<Rightarrow> station \<Rightarrow> error + station"
  insert_nans_timeseries :: "merged_station \<Rightarrow> string \<Rightarrow> error + merged_station"
  make_default_vert_grid :: "real list"

subsection \<open>Checking the inputs\<close>

text \<open>
  The first loop of \<^verbatim>\<open>merge_station_data\<close>, with its loop variables \<^verbatim>\<open>is_3d\<close> and
  \<^verbatim>\<open>has_errs\<close>. The conversion to a Series changes the station in place, so the loop
  gives the stations back.
\<close>

definition check_stat ::
  "string \<Rightarrow> string option \<Rightarrow> bool \<Rightarrow> station \<Rightarrow> error + station" where
  "check_stat var_name pref_attr fill_missing_nan stat =
     (case map_of (st_vars stat) var_name of
        None \<Rightarrow> Inl VarNotInStation
      | Some d \<Rightarrow>
          if (case pref_attr of
                None \<Rightarrow> False
              | Some a \<Rightarrow> map_of (st_attrs stat) a = None)
          then Inl PrefAttrMissing
          else (case d of
                  NotSeries c \<Rightarrow>
                    (case to_ts_helper stat var_name of
                       Inl e \<Rightarrow> Inl SeriesConversionFailed
                     | Inr stat' \<Rightarrow> Inr stat')
                | Series ts \<Rightarrow>
                    if fill_missing_nan
                    then (case get_var_ts_type stat var_name of
                            Inl e \<Rightarrow>
                              if class_of e = MetaDataError then Inl TsTypeMissing else Inl e
                          | Inr t \<Rightarrow> Inr stat)
                    else Inr stat))"

fun check_stats ::
  "string \<Rightarrow> string option \<Rightarrow> bool \<Rightarrow> station list \<Rightarrow> bool \<Rightarrow> bool
   \<Rightarrow> error + (station list \<times> bool \<times> bool)" where
  "check_stats var_name pref_attr fill_missing_nan [] is_3d has_errs = Inr ([], is_3d, has_errs)"
| "check_stats var_name pref_attr fill_missing_nan (stat # rest) is_3d has_errs =
     (case check_stat var_name pref_attr fill_missing_nan stat of
        Inl e \<Rightarrow> Inl e
      | Inr stat' \<Rightarrow>
          if \<not> check_if_3d stat' var_name \<and> is_3d then Inl MixedProfileAndFlat
          else (case check_stats var_name pref_attr fill_missing_nan rest
                       (if check_if_3d stat' var_name then True else is_3d)
                       (if map_of (st_data_err stat') var_name \<noteq> None then True else has_errs) of
                  Inl e \<Rightarrow> Inl e
                | Inr (stats', is_3d', has_errs') \<Rightarrow> Inr (stat' # stats', is_3d', has_errs')))"

subsection \<open>The flat case\<close>

text \<open>
  The key of the sort: \<^verbatim>\<open>s[pref_attr]\<close>, or \<^verbatim>\<open>len(s[var_name].dropna())\<close>, the number
  of samples that are not NaN.
\<close>

definition sort_key_of :: "string \<Rightarrow> string option \<Rightarrow> station \<Rightarrow> error + int" where
  "sort_key_of var_name pref_attr s =
     (case pref_attr of
        Some a \<Rightarrow>
          (case map_of (st_attrs s) a of None \<Rightarrow> Inl SortKeyMissing | Some k \<Rightarrow> Inr k)
      | None \<Rightarrow>
          (case map_of (st_vars s) var_name of
             None \<Rightarrow> Inl SortKeyMissing
           | Some (NotSeries c) \<Rightarrow> Inl NotASeries
           | Some (Series ts) \<Rightarrow> Inr (int (length (filter (\<lambda>(t, v). v \<noteq> None) ts)))))"

fun sort_keys :: "string \<Rightarrow> string option \<Rightarrow> station list \<Rightarrow> error + (int \<times> station) list" where
  "sort_keys var_name pref_attr [] = Inr []"
| "sort_keys var_name pref_attr (s # rest) =
     (case sort_key_of var_name pref_attr s of
        Inl e \<Rightarrow> Inl e
      | Inr k \<Rightarrow>
          (case sort_keys var_name pref_attr rest of
             Inl e \<Rightarrow> Inl e
           | Inr ks \<Rightarrow> Inr ((k, s) # ks)))"

text \<open>
  \<^verbatim>\<open>stats.sort(key=...)\<close> computes the key of every element, then sorts ascending and
  stable (\<open>sort_key\<close> is the stable insertion sort); \<^verbatim>\<open>stats[::-1]\<close> reverses.
\<close>

definition order_stats ::
  "string \<Rightarrow> string option \<Rightarrow> bool \<Rightarrow> station list \<Rightarrow> error + station list" where
  "order_stats var_name pref_attr sort_by_largest stats =
     (case sort_keys var_name pref_attr stats of
        Inl e \<Rightarrow> Inl e
      | Inr ks \<Rightarrow>
          (let sorted_stats = map snd (sort_key fst ks)
           in Inr (if sort_by_largest then rev sorted_stats else sorted_stats)))"

fun merge_others :: "merge_methods \<Rightarrow> string \<Rightarrow> station list \<Rightarrow> station \<Rightarrow> error + station" where
  "merge_others m var_name [] merged = Inr merged"
| "merge_others m var_name (stat # rest) merged =
     (case merge_other m merged stat var_name of
        Inl e \<Rightarrow> Inl e
      | Inr merged' \<Rightarrow> merge_others m var_name rest merged')"

definition merge_flat ::
  "merge_methods \<Rightarrow> station list \<Rightarrow> string \<Rightarrow> string option \<Rightarrow> bool \<Rightarrow> error + station" where
  "merge_flat m stats var_name pref_attr sort_by_largest =
     (case order_stats var_name pref_attr sort_by_largest stats of
        Inl e \<Rightarrow> Inl e
      | Inr ordered \<Rightarrow>
          (case ordered of
             [] \<Rightarrow> Inl PopFromEmptyList
           | merged # rest \<Rightarrow> merge_others m var_name rest merged))"

subsection \<open>The profile case\<close>

text \<open>
  \<^verbatim>\<open>numpy.interp(x, xp, fp)\<close> with its default \<^verbatim>\<open>left\<close> and \<^verbatim>\<open>right\<close>: for increasing
  sample points \<open>xp\<close>, a point below \<open>xp[0]\<close> gets \<open>fp[0]\<close>, a point above \<open>xp[-1]\<close> gets
  \<open>fp[-1]\<close>, a sample point gets its value, and a point between two sample points the
  value on the line through them (NaN if one of the two values is NaN). Sample points
  that are no array, are empty or differ in number from the values raise ValueError.
\<close>

definition lin :: "real \<Rightarrow> real \<Rightarrow> pyfloat \<Rightarrow> real \<Rightarrow> pyfloat \<Rightarrow> pyfloat" where
  "lin x x0 y0 x1 y1 =
     (case (y0, y1) of
        (Some a, Some b) \<Rightarrow> Some ((b - a) / (x1 - x0) * (x - x0) + a)
      | _ \<Rightarrow> None)"

fun interp_point :: "real \<Rightarrow> (real \<times> pyfloat) list \<Rightarrow> pyfloat" where
  "interp_point x [] = None"
| "interp_point x [(x0, y0)] = y0"
| "interp_point x ((x0, y0) # (x1, y1) # rest) =
     (if x < x1
      then (if x \<le> x0 then y0 else lin x x0 y0 x1 y1)
      else interp_point x ((x1, y1) # rest))"

definition np_interp :: "real list \<Rightarrow> altitude \<Rightarrow> pyfloat list \<Rightarrow> error + pyfloat list" where
  "np_interp x xp fp =
     (case xp of
        Scalar a \<Rightarrow> Inl InterpBadArrays
      | Levels l \<Rightarrow>
          if l = [] \<or> length l \<noteq> length fp then Inl InterpBadArrays
          else Inr (map (\<lambda>v. interp_point v (zip l fp)) x))"

text \<open>The time stamp of a profile: \<^verbatim>\<open>stat[var_name].index.unique()\<close> must have length 1.\<close>

fun profile_times :: "string \<Rightarrow> station list \<Rightarrow> error + int list" where
  "profile_times var_name [] = Inr []"
| "profile_times var_name (stat # rest) =
     (case map_of (st_vars stat) var_name of
        Some (Series ts) \<Rightarrow>
          (case remdups (map fst ts) of
             [t] \<Rightarrow>
               (case profile_times var_name rest of
                  Inl e \<Rightarrow> Inl e
                | Inr dtime \<Rightarrow> Inr (t # dtime))
           | _ \<Rightarrow> Inl ProfileNotSingleTime)
      | _ \<Rightarrow> Inl NotASeries)"

text \<open>
  The loop that fills the columns of \<^verbatim>\<open>_data\<close> (and \<^verbatim>\<open>_data_err\<close>): column \<open>i\<close> is the
  interpolation of the values of input \<open>i\<close> onto the vertical grid.
\<close>

definition profile_column ::
  "merge_methods \<Rightarrow> string \<Rightarrow> station \<Rightarrow> error + pyfloat list" where
  "profile_column m var_name stat =
     (case map_of (st_vars stat) var_name of
        Some (Series ts) \<Rightarrow>
          np_interp (make_default_vert_grid m) (st_altitude stat) (map snd ts)
      | _ \<Rightarrow> Inl NotASeries)"

definition profile_err_column ::
  "merge_methods \<Rightarrow> string \<Rightarrow> station \<Rightarrow> error + pyfloat list" where
  "profile_err_column m var_name stat =
     (case map_of (st_data_err stat) var_name of
        None \<Rightarrow> Inl (MissingVarData var_name)
      | Some errs \<Rightarrow> np_interp (make_default_vert_grid m) (st_altitude stat) errs)"

fun profile_columns ::
  "merge_methods \<Rightarrow> string \<Rightarrow> bool \<Rightarrow> station list \<Rightarrow> station option
   \<Rightarrow> error + (station option \<times> pyfloat list list \<times> pyfloat list list)" where
  "profile_columns m var_name has_errs [] merged = Inr (merged, [], [])"
| "profile_columns m var_name has_errs (stat # rest) merged =
     (case (case merged of
              None \<Rightarrow> Inr stat
            | Some mg \<Rightarrow> merge_meta_same_station m mg stat) of
        Inl e \<Rightarrow> Inl e
      | Inr merged' \<Rightarrow>
          (case profile_column m var_name stat of
             Inl e \<Rightarrow> Inl e
           | Inr col \<Rightarrow>
               (case (if has_errs
                      then (case profile_err_column m var_name stat of
                              Inl e \<Rightarrow> Inl e
                            | Inr ecol \<Rightarrow> Inr [ecol])
                      else Inr []) of
                  Inl e \<Rightarrow> Inl e
                | Inr ecols \<Rightarrow>
                    (case profile_columns m var_name has_errs rest (Some merged') of
                       Inl e \<Rightarrow> Inl e
                     | Inr (mg, cols, errcols) \<Rightarrow> Inr (mg, col # cols, ecols @ errcols)))))"

definition merge_profile ::
  "merge_methods \<Rightarrow> station list \<Rightarrow> string \<Rightarrow> bool \<Rightarrow> error + merged_station" where
  "merge_profile m stats var_name has_errs =
     (case profile_times var_name stats of
        Inl e \<Rightarrow> Inl e
      | Inr dtime \<Rightarrow>
          (case profile_columns m var_name has_errs stats None of
             Inl e \<Rightarrow> Inl e
           | Inr (None, cols, errcols) \<Rightarrow> Inl PopFromEmptyList
           | Inr (Some merged, cols, errcols) \<Rightarrow>
               Inr (Profile merged
                      \<lparr> pa_time = map fst (sort_key fst (zip dtime cols)),
                        pa_altitude = make_default_vert_grid m,
                        pa_columns = map snd (sort_key fst (zip dtime cols)) \<rparr>
                      (if has_errs
                       then Some (map snd (sort_key fst (zip dtime errcols)))
                       else None))))"

subsection \<open>\<^verbatim>\<open>merge_station_data\<close>\<close>

definition merge_station_data ::
  "merge_methods \<Rightarrow> station list \<Rightarrow> string \<Rightarrow> string option \<Rightarrow> bool \<Rightarrow> bool
   \<Rightarrow> error + merged_station" where
  "merge_station_data m stats var_name pref_attr sort_by_largest fill_missing_nan =
     (case check_stats var_name pref_attr fill_missing_nan stats False False of
        Inl e \<Rightarrow> Inl e
      | Inr (stats', is_3d, has_errs) \<Rightarrow>
          (case (if \<not> is_3d
                 then (case merge_flat m stats' var_name pref_attr sort_by_largest of
                         Inl e \<Rightarrow> Inl e
                       | Inr merged \<Rightarrow> Inr (Flat merged))
                 else merge_profile m stats' var_name has_errs) of
             Inl e \<Rightarrow> Inl e
           | Inr merged \<Rightarrow>
               if fill_missing_nan then insert_nans_timeseries m merged var_name
               else Inr merged))"

section \<open>Notions used in the properties\<close>

text \<open>
  The variables of a resolved file that have usable data: those whose column is not all
  NaN, in the order of \<^verbatim>\<open>var_cols\<close>.
\<close>

definition usable :: "ebas_file \<Rightarrow> (string \<times> nat list) list \<Rightarrow> string list" where
  "usable fl var_cols = map fst (filter (\<lambda>p. \<not> all_nan fl (snd p ! 0)) var_cols)"

text \<open>
  The candidate columns of the requested variables in the order in which the first loop
  of \<^verbatim>\<open>read_file\<close> looks at them (the variables in the order of the request, the
  columns of a variable in the order of the file), and the error that the wavelength
  loop raises at a candidate, if it raises there: VariableDefinitionError at a column
  with a wavelength when the variable has none, NotImplementedError at a column
  without wavelength that has a location.
\<close>

definition raising_col :: "ebas_file \<Rightarrow> real option \<Rightarrow> nat \<Rightarrow> error option" where
  "raising_col fl wvl colnum =
     (case col_wavelength (var_defs fl ! colnum) of
        Some w \<Rightarrow> (if wvl = None then Some RequireWavelength else None)
      | None \<Rightarrow>
          (case col_location (var_defs fl ! colnum) of
             Some l \<Rightarrow> Some LocationNotImplemented
           | None \<Rightarrow> None))"

definition candidates :: "reader_config \<Rightarrow> ebas_file \<Rightarrow> string list \<Rightarrow> (string \<times> nat) list" where
  "candidates cfg fl vars =
     concat (map (\<lambda>v. case get_var_cols (ebas_info cfg v) fl of
                          Inl e \<Rightarrow> []
                        | Inr col_matches \<Rightarrow> map (\<lambda>c. (v, c)) col_matches) vars)"

definition raising :: "reader_config \<Rightarrow> ebas_file \<Rightarrow> string \<times> nat \<Rightarrow> error option" where
  "raising cfg fl p = raising_col fl (wavelength_nm cfg (fst p)) (snd p)"

section \<open>Notions about the store\<close>

text \<open>
  The station records of the files that \<^verbatim>\<open>read_file\<close> reads without error, in the
  order of the files, and the names of the files on which it raises.
\<close>

fun stations_read ::
  "reader_config \<Rightarrow> string list \<Rightarrow> (string \<times> ebas_file \<times> string list) list
   \<Rightarrow> station_data list" where
  "stations_read cfg vars_to_compute [] = []"
| "stations_read cfg vars_to_compute ((filename, fl, vars_to_read) # rest) =
     (case read_file cfg fl vars_to_read vars_to_compute of
        Inl e \<Rightarrow> stations_read cfg vars_to_compute rest
      | Inr station_data \<Rightarrow> station_data # stations_read cfg vars_to_compute rest)"

fun failed_names ::
  "reader_config \<Rightarrow> string list \<Rightarrow> (string \<times> ebas_file \<times> string list) list
   \<Rightarrow> string list" where
  "failed_names cfg vars_to_compute [] = []"
| "failed_names cfg vars_to_compute ((filename, fl, vars_to_read) # rest) =
     (case read_file cfg fl vars_to_read vars_to_compute of
        Inl e \<Rightarrow> filename # failed_names cfg vars_to_compute rest
      | Inr station_data \<Rightarrow> failed_names cfg vars_to_compute rest)"

text \<open>The rows that \<^verbatim>\<open>read\<close> appends for a station: \<^verbatim>\<open>totnum\<close>.\<close>

definition rows_of :: "station_data \<Rightarrow> nat" where
  "rows_of station_data = length (sd_dtime station_data) * length (sd_contains_vars station_data)"

text \<open>
  The table has \<^verbatim>\<open>_ROWNO\<close> rows and the rows written so far fit: logical length at
  most physical capacity.
\<close>

definition store_inv :: "read_state \<Rightarrow> bool" where
  "store_inv s = (length (u_data (data_obj s)) = u_ROWNO (data_obj s)
                  \<and> idx s \<le> u_ROWNO (data_obj s))"

text \<open>
  Names in the order in which they are first seen, and their numbering from 0: the
  shape of the registry \<^verbatim>\<open>var_idx\<close>.
\<close>

definition add_new :: "'a list \<Rightarrow> 'a \<Rightarrow> 'a list" where
  "add_new reg v = (if v \<in> set reg then reg else reg @ [v])"


definition numbered :: "string list \<Rightarrow> (string \<times> int) list" where
  "numbered names = zip names (map int [0..<length names])"


text \<open>
  Every variable listed in a station record has a data column of the file and a
  column definition; every variable has as many samples as there are time stamps.
\<close>

definition has_data :: "ebas_file \<Rightarrow> station_data \<Rightarrow> bool" where
  "has_data fl out =
     (\<forall>v \<in> set (sd_contains_vars out).
        (\<exists>c. map_of (sd_var_data out) v = Some (data_column fl c))
        \<and> map_of (sd_var_info out) v \<noteq> None)"

definition well_formed :: "station_data \<Rightarrow> bool" where
  "well_formed sd =
     (\<forall>v \<in> set (sd_contains_vars sd).
        (\<exists>vals. map_of (sd_var_data sd) v = Some vals \<and> length vals = length (sd_dtime sd))
        \<and> map_of (sd_var_info sd) v \<noteq> None)"

section \<open>Example inputs\<close>

text \<open>Small files, stations and configurations on which the properties below are run.\<close>

definition ex_col :: "string \<Rightarrow> real option \<Rightarrow> col_def" where
  "ex_col n w = \<lparr> col_name = n, col_matrix = None, col_statistics = None,
      col_wavelength = w, col_location = None, col_unit = None \<rparr>"

definition ex_meta :: file_meta where
  "ex_meta = \<lparr> meta_resolution_code = Some ''1h'', meta_station_altitude = Some 10,
        meta_measurement_height = None, meta_station_longitude = Some 1,
        meta_station_latitude = Some 2, meta_station_name = Some ''Birkenes'',
        meta_instrument_name = Some ''neph'', meta_instrument_type = Some ''nephelometer'',
        meta_matrix = Some ''aerosol'', meta_statistics = Some ''arithmetic mean'' \<rparr>"

definition ex_file :: "col_def list \<Rightarrow> pyfloat list list \<Rightarrow> ebas_file" where
  "ex_file cs d = \<lparr> var_defs = cs, data = d, time_stamps = map int [0..<length d],
     meta = ex_meta, file_matrix = ''aerosol'', file_unit = ''1/Mm'',
     data_originator = ''PI'', revision_date = 0 \<rparr>"

definition ex_cfg :: "real option \<Rightarrow> reader_config" where
  "ex_cfg w = \<lparr> wavelength_nm = (\<lambda>v. w),
     ebas_info = (\<lambda>v. \<lparr> info_var_name = v, component = [v], info_matrix = None,
                          info_statistics = None \<rparr>) \<rparr>"

text \<open>The file of the wavelength example: columns at 500, 520 and 600 nm, in this order.\<close>

definition ex_wvl_file :: ebas_file where
  "ex_wvl_file =
     ex_file [ex_col ''sc'' (Some 500), ex_col ''sc'' (Some 520), ex_col ''sc'' (Some 600)] []"

text \<open>
  A file whose first column has a location and no wavelength and whose second column
  has a wavelength, and a file with one column at 550 nm.
\<close>

definition ex_loc_file :: ebas_file where
  "ex_loc_file =
     ex_file [(ex_col ''sc'' None) \<lparr> col_location := Some ''inlet'' \<rparr>,
              ex_col ''sc'' (Some 550)] []"

definition ex_one_wvl_file :: ebas_file where
  "ex_one_wvl_file = ex_file [ex_col ''sc'' (Some 550)] []"

text \<open>A file whose first column has a wavelength and whose second column has a location.\<close>

definition ex_later_loc_file :: ebas_file where
  "ex_later_loc_file =
     ex_file [ex_col ''sc'' (Some 550),
              (ex_col ''sc'' None) \<lparr> col_location := Some ''inlet'' \<rparr>] []"

text \<open>
  A file with two variables and two samples: the column of \<open>a\<close> is all NaN, the
  column of \<open>b\<close> is not. And the same file with both columns all NaN.
\<close>

definition ex_nan_file :: ebas_file where
  "ex_nan_file =
     ex_file [ex_col ''a'' None, ex_col ''b'' None] [[None, Some 1], [None, Some 2]]"

definition ex_all_nan_file :: ebas_file where
  "ex_all_nan_file =
     ex_file [ex_col ''a'' None, ex_col ''b'' None] [[None, None], [None, None]]"

text \<open>
  A file with one sample in which both columns have data, and a batch of three files:
  the second one has no usable data, the first one has usable data for \<open>b\<close> only.
\<close>

definition ex_ab_file :: ebas_file where
  "ex_ab_file = ex_file [ex_col ''a'' None, ex_col ''b'' None] [[Some 1, Some 2]]"

definition ex_files :: "(string \<times> ebas_file \<times> string list) list" where
  "ex_files = [(''f1'', ex_nan_file, [''a'', ''b'']),
               (''f2'', ex_all_nan_file, [''a'', ''b'']),
               (''f3'', ex_ab_file, [''a'', ''b''])]"

text \<open>
  A file with three columns of the same variable, matrix and statistics; the first
  column has one NaN, the two others none.
\<close>

definition ex_tie_file :: ebas_file where
  "ex_tie_file =
     ex_file [ex_col ''sc'' None, ex_col ''sc'' None, ex_col ''sc'' None]
       [[None, Some 1, Some 2], [Some 1, Some 2, Some 3]]"

text \<open>
  Merge methods that make the order of the merge visible (\<^verbatim>\<open>merge_other\<close> appends the
  attributes of the other station), the vertical grid 0, 5, 10, 15, 20, the two profiles
  of the interpolation example, and flat stations.
\<close>

definition ex_methods :: merge_methods where
  "ex_methods =
     \<lparr> merge_other = (\<lambda>merged other v.
                        Inr (merged \<lparr> st_attrs := st_attrs merged @ st_attrs other \<rparr>)),
       merge_meta_same_station = (\<lambda>merged other. Inr merged),
       insert_nans_timeseries = (\<lambda>merged v. Inr merged),
       make_default_vert_grid = [0, 5, 10, 15, 20] \<rparr>"

definition ex_station :: "(int \<times> pyfloat) list \<Rightarrow> altitude \<Rightarrow> int \<Rightarrow> station" where
  "ex_station ts alt rev_date =
     \<lparr> st_vars = [(''v'', Series ts)], st_attrs = [(''revision_date'', rev_date)],
       st_ts_type = Some ''hourly'', st_altitude = alt, st_data_err = [] \<rparr>"

definition ex_profile1 :: station where
  "ex_profile1 = ex_station [(1, Some 1), (1, Some 2), (1, Some 3)] (Levels [0, 10, 20]) 1"

definition ex_profile2 :: station where
  "ex_profile2 = ex_station [(2, Some 4), (2, Some 5)] (Levels [5, 15]) 2"

definition ex_flat :: station where
  "ex_flat = ex_station [(1, Some 7)] (Scalar 100) 3"

definition ex_flat1 :: station where
  "ex_flat1 = ex_station [(1, Some 1), (2, None)] (Scalar 100) 3"

definition ex_flat2 :: station where
  "ex_flat2 = ex_station [(1, Some 9), (3, Some 3)] (Scalar 100) 1"

definition ex_flat3 :: station where
  "ex_flat3 = ex_station [(4, Some 4)] (Scalar 100) 2"

section \<open>Properties\<close>

subsection \<open>Wavelength disambiguation\<close>

text \<open>
  C1, as stated (the 520 nm column is selected), fails: with the columns in the order
  500, 520, 600 nm, target 510 nm and tolerance 50 nm, the loop keeps the 500 nm column
  (column 0) alone. Both 500 and 520 are 10 nm from the target; the column met first
  sets \<^verbatim>\<open>min_diff_wvl\<close> to -10, and the 520 nm column, with difference +10, is neither
  strictly nearer nor equal in the signed comparison.
\<close>

theorem wavelength_example_counterexample:
  "wvl_matches ex_wvl_file (Some 510) [0, 1, 2] = Inr [0]
   \<and> col_wavelength (var_defs ex_wvl_file ! 0) = Some 500
   \<and> col_wavelength (var_defs ex_wvl_file ! 1) = Some 520
   \<and> resolve_columns (ex_cfg (Some 510)) ex_wvl_file [''sc''] = Inr [(''sc'', [0])]"
  by (simp add: ex_wvl_file_def resolve_columns_def get_var_cols_def col_ok_def ex_cfg_def
      wvl_matches_def ex_file_def ex_col_def WAVELENGTH_TOL_NM_def)

text \<open>
  C1, amended: for candidate columns at 500, 520 and 600 nm in any order, target 510 nm
  and tolerance 50 nm, the wavelength loop selects at least one column, every selected
  column is at the least distance from the target within [460, 560] (it is the 500 nm
  or the 520 nm column), and the 600 nm column is never selected.
\<close>

theorem wavelength_example_amended:
  assumes "map col_wavelength (var_defs file) = [Some w0, Some w1, Some w2]"
      and "{w0, w1, w2} = {500, 520, 600}"
  shows "\<exists>ms. wvl_matches file (Some 510) [0, 1, 2] = Inr ms \<and> ms \<noteq> [] \<and>
           (\<forall>c \<in> set ms. col_wavelength (var_defs file ! c) = Some 500
                          \<or> col_wavelength (var_defs file ! c) = Some 520)"
proof -
  from assms(1) obtain c0 c1 c2 where vd: "var_defs file = [c0, c1, c2]"
    and w: "col_wavelength c0 = Some w0" "col_wavelength c1 = Some w1"
      "col_wavelength c2 = Some w2"
    by (auto simp: map_eq_Cons_conv)
  have m0: "w0 \<in> {500, 520, 600}" and m1: "w1 \<in> {500, 520, 600}"
    and m2: "w2 \<in> {500, 520, 600}"
    using assms(2) by auto
  have c500: "500 \<in> {w0, w1, w2}" and c520: "520 \<in> {w0, w1, w2}"
    and c600: "600 \<in> {w0, w1, w2}"
    using assms(2) by auto
  consider "w0 = 500 \<and> w1 = 520 \<and> w2 = 600" | "w0 = 500 \<and> w1 = 600 \<and> w2 = 520"
    | "w0 = 520 \<and> w1 = 500 \<and> w2 = 600" | "w0 = 520 \<and> w1 = 600 \<and> w2 = 500"
    | "w0 = 600 \<and> w1 = 500 \<and> w2 = 520" | "w0 = 600 \<and> w1 = 520 \<and> w2 = 500"
    using m0 m1 m2 c500 c520 c600 by auto
  then show ?thesis
    by cases (simp_all add: wvl_matches_def vd w WAVELENGTH_TOL_NM_def)
qed

theorem wavelength_example_amended_witness:
  "\<exists>ms. wvl_matches ex_wvl_file (Some 510) [0, 1, 2] = Inr ms \<and> ms \<noteq> [] \<and>
           list_all (\<lambda>c. col_wavelength (var_defs ex_wvl_file ! c) = Some 500
                          \<or> col_wavelength (var_defs ex_wvl_file ! c) = Some 520) ms"
proof -
  have a: "map col_wavelength (var_defs ex_wvl_file) = [Some 500, Some 520, Some 600]"
    by (simp add: ex_wvl_file_def ex_file_def ex_col_def)
  have b: "{500, 520, 600} = {500, 520, 600 :: real}"
    by simp
  from wavelength_example_amended [OF a b] show ?thesis
    by (simp add: list_all_iff)
qed

subsection \<open>Errors of the wavelength loop\<close>

text \<open>
  The first loop of \<^verbatim>\<open>read_file\<close> ends with the error of the first candidate at which
  the wavelength loop raises.
\<close>

lemma wvl_loop_first_raising:
  "find (\<lambda>c. raising_col fl wvl c \<noteq> None) cs = Some c \<Longrightarrow>
     wvl_loop fl wvl cs md ms = Inl (the (raising_col fl wvl c))"
proof (induction cs arbitrary: md ms)
  case Nil
  then show ?case by simp
next
  case (Cons a cs)
  show ?case
  proof (cases "raising_col fl wvl a")
    case None
    with Cons.prems have f: "find (\<lambda>c. raising_col fl wvl c \<noteq> None) cs = Some c" by simp
    from None Cons.IH [OF f] show ?thesis
      by (auto simp: raising_col_def Let_def split: option.splits if_splits)
  next
    case (Some e)
    with Cons.prems have "c = a" by simp
    with Some show ?thesis
      by (auto simp: raising_col_def Let_def split: option.splits if_splits)
  qed
qed

lemma wvl_loop_none_raising:
  "find (\<lambda>c. raising_col fl wvl c \<noteq> None) cs = None \<Longrightarrow>
     \<exists>r. wvl_loop fl wvl cs md ms = Inr r"
proof (induction cs arbitrary: md ms)
  case Nil
  then show ?case by simp
next
  case (Cons a cs)
  from Cons.prems have n: "raising_col fl wvl a = None"
    and f: "find (\<lambda>c. raising_col fl wvl c \<noteq> None) cs = None"
    by (auto split: if_splits)
  from n Cons.IH [OF f] show ?case
    by (auto simp: raising_col_def Let_def split: option.splits if_splits)
qed

lemma find_map_pair:
  "find P (map (\<lambda>c. (v, c)) cs) = map_option (\<lambda>c. (v, c)) (find (\<lambda>c. P (v, c)) cs)"
  by (induction cs) auto

lemma find_append_case:
  "find P (xs @ ys) = (case find P xs of None \<Rightarrow> find P ys | Some x \<Rightarrow> Some x)"
  by (induction xs) auto

lemma resolve_loop_first_raising:
  "find (\<lambda>p. raising cfg fl p \<noteq> None) (candidates cfg fl vars) = Some p \<Longrightarrow>
     resolve_loop cfg fl vars vc = Inl (the (raising cfg fl p))"
proof (induction vars arbitrary: vc)
  case Nil
  then show ?case by (simp add: candidates_def)
next
  case (Cons v vars)
  have cs: "candidates cfg fl (v # vars) =
      (case get_var_cols (ebas_info cfg v) fl of Inl e \<Rightarrow> []
       | Inr cm \<Rightarrow> map (\<lambda>c. (v, c)) cm) @ candidates cfg fl vars"
    by (simp add: candidates_def)
  show ?case
  proof (cases "get_var_cols (ebas_info cfg v) fl")
    case (Inl e)
    then have "e = VarNotInFile"
      by (auto simp: get_var_cols_def Let_def split: if_splits)
    with Inl cs Cons show ?thesis by simp
  next
    case (Inr cm)
    let ?Q = "\<lambda>c. raising_col fl (wavelength_nm cfg v) c \<noteq> None"
    have fm: "find (\<lambda>p. raising cfg fl p \<noteq> None) (map (\<lambda>c. (v, c)) cm)
                = map_option (\<lambda>c. (v, c)) (find ?Q cm)"
      by (simp add: find_map_pair raising_def)
    show ?thesis
    proof (cases "find ?Q cm")
      case None
      with Cons.prems cs Inr fm
      have f: "find (\<lambda>p. raising cfg fl p \<noteq> None) (candidates cfg fl vars) = Some p"
        by (simp add: find_append_case)
      from wvl_loop_none_raising [OF None, of 1000000 "[]"] obtain r
        where "wvl_matches fl (wavelength_nm cfg v) cm = Inr r"
        by (auto simp: wvl_matches_def)
      with Inr Cons.IH [OF f] show ?thesis by simp
    next
      case (Some c)
      with Cons.prems cs Inr fm have p: "p = (v, c)"
        by (simp add: find_append_case)
      from wvl_loop_first_raising [OF Some, of 1000000 "[]"]
      have "wvl_matches fl (wavelength_nm cfg v) cm
              = Inl (the (raising_col fl (wavelength_nm cfg v) c))"
        by (simp add: wvl_matches_def)
      with Inr p show ?thesis by (simp add: raising_def)
    qed
  qed
qed

text \<open>
  C10, as stated, fails: a candidate column that comes earlier, has no wavelength
  attribute and has a location attribute raises NotImplementedError before the column
  with the wavelength is looked at.
\<close>

theorem wavelength_without_definition_counterexample:
  "get_var_cols (ebas_info (ex_cfg None) ''sc'') ex_loc_file = Inr [0, 1]
   \<and> col_wavelength (var_defs ex_loc_file ! 1) = Some 550
   \<and> wavelength_nm (ex_cfg None) ''sc'' = None
   \<and> read_file (ex_cfg None) ex_loc_file [''sc''] [] = Inl LocationNotImplemented
   \<and> class_of LocationNotImplemented = NotImplementedError"
  by (simp add: ex_loc_file_def ex_file_def ex_col_def ex_cfg_def get_var_cols_def
      col_ok_def read_file_def resolve_columns_def wvl_matches_def)

text \<open>
  C10, amended: in read_file, if a candidate column of a requested variable carries a
  wavelength attribute while the variable's definition has no wavelength, read_file
  raises for the whole file and the candidate never passes through. The error is that
  of the first candidate, in the order in which the loop looks at the candidates, at
  which the loop raises: VariableDefinitionError, unless a candidate column looked at
  earlier than this one (and before every other candidate that carries a wavelength
  while its variable has none) has no wavelength attribute but a location attribute;
  then NotImplementedError is raised.
\<close>

theorem wavelength_without_definition_amended:
  assumes "v \<in> set vars_to_read"
      and "wavelength_nm cfg v = None"
      and "get_var_cols (ebas_info cfg v) fl = Inr col_matches"
      and "c \<in> set col_matches"
      and "col_wavelength (var_defs fl ! c) \<noteq> None"
    shows "\<exists>pre p post. candidates cfg fl vars_to_read = pre @ p # post
             \<and> (\<forall>q \<in> set pre. raising cfg fl q = None)
             \<and> ((raising cfg fl p = Some RequireWavelength
                  \<and> read_file cfg fl vars_to_read vars_to_compute = Inl RequireWavelength)
                \<or> (raising cfg fl p = Some LocationNotImplemented
                    \<and> col_wavelength (var_defs fl ! snd p) = None
                    \<and> col_location (var_defs fl ! snd p) \<noteq> None
                    \<and> (v, c) \<in> set post
                    \<and> read_file cfg fl vars_to_read vars_to_compute
                        = Inl LocationNotImplemented))"
proof -
  let ?P = "\<lambda>p. raising cfg fl p \<noteq> None"
  let ?seq = "candidates cfg fl vars_to_read"
  from assms(1,3,4) have mem: "(v, c) \<in> set ?seq"
    by (force simp: candidates_def)
  from assms(2,5) have rvc: "raising cfg fl (v, c) = Some RequireWavelength"
    by (auto simp: raising_def raising_col_def)
  with mem have "find ?P ?seq \<noteq> None"
    by (auto simp: find_None_iff)
  then obtain p where f: "find ?P ?seq = Some p" by auto
  then obtain i where i: "i < length ?seq" "?P (?seq ! i)" "p = ?seq ! i"
    "\<forall>j < i. \<not> ?P (?seq ! j)"
    by (auto simp: find_Some_iff)
  let ?pre = "take i ?seq" and ?post = "drop (Suc i) ?seq"
  from i(1,3) have split: "?seq = ?pre @ p # ?post"
    by (simp add: id_take_nth_drop)
  have pre: "\<forall>q \<in> set ?pre. raising cfg fl q = None"
  proof
    fix q assume "q \<in> set ?pre"
    then obtain j where "j < length ?pre" "q = ?pre ! j"
      by (auto simp: in_set_conv_nth)
    with i(1,4) show "raising cfg fl q = None" by auto
  qed
  from resolve_loop_first_raising [OF f, of "[]"]
  have rf: "read_file cfg fl vars_to_read vars_to_compute = Inl (the (raising cfg fl p))"
    by (simp add: read_file_def resolve_columns_def)
  from i(2,3) obtain e where e: "raising cfg fl p = Some e" by auto
  then have cases: "e = RequireWavelength \<or> e = LocationNotImplemented"
    by (auto simp: raising_def raising_col_def split: option.splits if_splits)
  show ?thesis
  proof (cases "e = RequireWavelength")
    case True
    with e rf split pre show ?thesis by (intro exI [of _ ?pre] exI [of _ p] exI [of _ ?post]) simp
  next
    case False
    with cases have l: "e = LocationNotImplemented" by simp
    with e have attrs: "col_wavelength (var_defs fl ! snd p) = None"
      "col_location (var_defs fl ! snd p) \<noteq> None"
      by (auto simp: raising_def raising_col_def split: option.splits if_splits)
    from e l rvc have "p \<noteq> (v, c)" by auto
    moreover from pre rvc have "(v, c) \<notin> set ?pre" by auto
    ultimately have "(v, c) \<in> set ?post"
      using mem split by (metis Un_iff set_ConsD set_append)
    with e l rf split pre attrs show ?thesis
      by (intro exI [of _ ?pre] exI [of _ p] exI [of _ ?post]) simp
  qed
qed

theorem wavelength_without_definition_witness:
  "read_file (ex_cfg None) ex_one_wvl_file [''sc''] [] = Inl RequireWavelength
   \<and> read_file (ex_cfg None) ex_later_loc_file [''sc''] [] = Inl RequireWavelength
   \<and> class_of RequireWavelength = VariableDefinitionError"
proof -
  have a: "''sc'' \<in> set [''sc'']" by simp
  have b: "wavelength_nm (ex_cfg None) ''sc'' = None" by (simp add: ex_cfg_def)
  have d: "(0::nat) \<in> set [0]" by simp
  have d': "(0::nat) \<in> set [0, 1]" by simp
  have c1: "get_var_cols (ebas_info (ex_cfg None) ''sc'') ex_one_wvl_file = Inr [0]"
    by (simp add: ex_one_wvl_file_def ex_file_def ex_col_def ex_cfg_def get_var_cols_def
        col_ok_def)
  have e1: "col_wavelength (var_defs ex_one_wvl_file ! 0) \<noteq> None"
    by (simp add: ex_one_wvl_file_def ex_file_def ex_col_def)
  have s1: "candidates (ex_cfg None) ex_one_wvl_file [''sc''] = [(''sc'', 0)]"
    using c1 by (simp add: candidates_def)
  from wavelength_without_definition_amended [OF a b c1 d e1, of "[]"] s1
  have 1: "read_file (ex_cfg None) ex_one_wvl_file [''sc''] [] = Inl RequireWavelength"
    by (auto simp: Cons_eq_append_conv)
  have c2: "get_var_cols (ebas_info (ex_cfg None) ''sc'') ex_later_loc_file = Inr [0, 1]"
    by (simp add: ex_later_loc_file_def ex_file_def ex_col_def ex_cfg_def get_var_cols_def
        col_ok_def)
  have e2: "col_wavelength (var_defs ex_later_loc_file ! 0) \<noteq> None"
    by (simp add: ex_later_loc_file_def ex_file_def ex_col_def)
  have s2: "candidates (ex_cfg None) ex_later_loc_file [''sc''] = [(''sc'', 0), (''sc'', 1)]"
    using c2 by (simp add: candidates_def)
  from wavelength_without_definition_amended [OF a b c2 d' e2, of "[]"] s2
  have 2: "read_file (ex_cfg None) ex_later_loc_file [''sc''] [] = Inl RequireWavelength"
    by (auto simp: Cons_eq_append_conv)
  from 1 2 show ?thesis by simp
qed

subsection \<open>Columns that are all NaN\<close>

lemma set_update_subset: "set (AList.update k v al) \<subseteq> insert (k, v) (set al)"
  by (induction al) auto

lemma resolve_loop_nonempty:
  "resolve_loop cfg fl vars vc = Inr vc' \<Longrightarrow> \<forall>p \<in> set vc. snd p \<noteq> [] \<Longrightarrow>
     \<forall>p \<in> set vc'. snd p \<noteq> []"
proof (induction vars arbitrary: vc)
  case Nil
  then show ?case by simp
next
  case (Cons v vars)
  show ?case
  proof (cases "get_var_cols (ebas_info cfg v) fl")
    case (Inl e)
    with Cons show ?thesis by (simp split: if_splits)
  next
    case (Inr cm)
    show ?thesis
    proof (cases "wvl_matches fl (wavelength_nm cfg v) cm")
      case (Inl e)
      with Inr Cons.prems show ?thesis by simp
    next
      case ms: (Inr ms)
      show ?thesis
      proof (cases "ms = []")
        case True
        with ms Inr Cons show ?thesis by simp
      next
        case False
        with Cons.prems(2) set_update_subset [of v ms vc]
        have "\<forall>p \<in> set (AList.update v ms vc). snd p \<noteq> []" by auto
        with False ms Inr Cons.prems(1) Cons.IH show ?thesis by simp
      qed
    qed
  qed
qed

lemma resolve_loop_distinct:
  "resolve_loop cfg fl vars vc = Inr vc' \<Longrightarrow> distinct (map fst vc) \<Longrightarrow>
     distinct (map fst vc')"
proof (induction vars arbitrary: vc)
  case Nil
  then show ?case by simp
next
  case (Cons v vars)
  show ?case
  proof (cases "get_var_cols (ebas_info cfg v) fl")
    case (Inl e)
    with Cons show ?thesis by (simp split: if_splits)
  next
    case (Inr cm)
    show ?thesis
    proof (cases "wvl_matches fl (wavelength_nm cfg v) cm")
      case (Inl e)
      with Inr Cons.prems show ?thesis by simp
    next
      case ms: (Inr ms)
      from Cons.prems(2) have "distinct (map fst (AList.update v ms vc))"
        by (rule distinct_update)
      with ms Inr Cons show ?thesis by (simp split: if_splits)
    qed
  qed
qed

lemma find_best_data_column_single:
  "find_best_data_column cols info fl = Inr r \<Longrightarrow> length r = 1"
  by (auto simp: find_best_data_column_def fewest_nan_def split: sum.splits if_splits)

lemma best_cols_loop_single:
  "best_cols_loop cfg fl vc = Inr r \<Longrightarrow> \<forall>p \<in> set vc. snd p \<noteq> [] \<Longrightarrow>
     map fst r = map fst vc \<and> (\<forall>p \<in> set r. length (snd p) = 1)"
proof (induction vc arbitrary: r)
  case Nil
  then show ?case by simp
next
  case (Cons a vc)
  obtain v cols where a: "a = (v, cols)" by (cases a)
  from Cons.prems(2) a have ne: "cols \<noteq> []" and rest: "\<forall>p \<in> set vc. snd p \<noteq> []"
    by auto
  show ?case
  proof (cases "length cols > 1")
    case True
    with Cons.prems(1) a obtain col r' where
      c: "find_best_data_column cols (ebas_info cfg v) fl = Inr col"
      and r': "best_cols_loop cfg fl vc = Inr r'" and r: "r = (v, col) # r'"
      by (auto split: sum.splits)
    from find_best_data_column_single [OF c] Cons.IH [OF r' rest] r a
    show ?thesis by simp
  next
    case False
    with ne have l: "length cols = 1" by (cases cols) auto
    from False Cons.prems(1) a obtain r' where
      r': "best_cols_loop cfg fl vc = Inr r'" and r: "r = (v, cols) # r'"
      by (auto split: sum.splits)
    from l Cons.IH [OF r' rest] r a show ?thesis by simp
  qed
qed

lemma resolve_columns_single:
  assumes "resolve_columns cfg fl vars = Inr vc"
  shows "vc \<noteq> [] \<and> distinct (map fst vc) \<and> (\<forall>p \<in> set vc. length (snd p) = 1)"
proof -
  from assms obtain vc0 where l: "resolve_loop cfg fl vars [] = Inr vc0"
    and ne: "vc0 \<noteq> []" and b: "best_cols_loop cfg fl vc0 = Inr vc"
    by (auto simp: resolve_columns_def split: sum.splits if_splits)
  from resolve_loop_nonempty [OF l] have n: "\<forall>p \<in> set vc0. snd p \<noteq> []" by simp
  from resolve_loop_distinct [OF l] have d: "distinct (map fst vc0)" by simp
  from best_cols_loop_single [OF b n] d ne show ?thesis
    by (cases vc; cases vc0) auto
qed

lemma extract_loop_contains:
  "\<forall>p \<in> set vc. length (snd p) = 1 \<Longrightarrow>
     \<exists>out'. extract_loop fl vc out = Inr out'
       \<and> sd_contains_vars out' = sd_contains_vars out @ usable fl vc
       \<and> fst ` set (sd_var_data out') = fst ` set (sd_var_data out) \<union> set (usable fl vc)"
proof (induction vc arbitrary: out)
  case Nil
  then show ?case by (simp add: usable_def)
next
  case (Cons a vc)
  obtain v cols where a: "a = (v, cols)" by (cases a)
  from Cons.prems a have l: "length cols = 1" and rest: "\<forall>p \<in> set vc. length (snd p) = 1"
    by auto
  show ?case
  proof (cases "all_nan fl (cols ! 0)")
    case True
    with Cons.IH [OF rest, of out] a l show ?thesis
      by (simp add: usable_def)
  next
    case False
    let ?out = "out \<lparr>
                      sd_var_data := AList.update v (data_column fl (cols ! 0))
                                       (sd_var_data out),
                      sd_var_info := AList.update v
                                       (fill_col fl (sd_matrix out)
                                          (var_defs fl ! (cols ! 0)))
                                       (sd_var_info out),
                      sd_contains_vars := sd_contains_vars out @ [v] \<rparr>"
    from Cons.IH [OF rest, of ?out] False a l show ?thesis
      by (auto simp: usable_def Let_def dom_update)
  qed
qed

text \<open>
  C9: for a file whose columns are resolved and whose meta data has the keys that
  read_file reads, read_file raises the "all data columns are NaN" EbasFileError if and
  only if every resolved column is all NaN; otherwise it returns a station record whose
  variables are the resolved ones with usable data (followed by the variables to
  compute): a variable whose column is all NaN is left out, with no data stored for it,
  and nothing is raised.
\<close>

theorem all_nan_columns_dropped:
  assumes "resolve_columns cfg fl vars_to_read = Inr var_cols"
      and "station_header fl = Inr header"
    shows "(read_file cfg fl vars_to_read vars_to_compute = Inl AllColumnsNaN)
             = (\<forall>p \<in> set var_cols. all_nan fl (snd p ! 0))
           \<and> ((\<exists>p \<in> set var_cols. \<not> all_nan fl (snd p ! 0)) \<longrightarrow>
                (\<exists>out. read_file cfg fl vars_to_read vars_to_compute = Inr out
                   \<and> sd_contains_vars out = usable fl var_cols @ vars_to_compute
                   \<and> fst ` set (sd_var_data out) = set (usable fl var_cols)
                   \<and> (\<forall>p \<in> set var_cols. all_nan fl (snd p ! 0) \<longrightarrow>
                         fst p \<notin> set (sd_contains_vars out) - set vars_to_compute
                         \<and> map_of (sd_var_data out) (fst p) = None)))"
proof -
  from resolve_columns_single [OF assms(1)]
  have d: "distinct (map fst var_cols)" and s: "\<forall>p \<in> set var_cols. length (snd p) = 1"
    by simp_all
  have h0: "sd_contains_vars header = []" "sd_var_data header = []"
    using assms(2)
    by (auto simp: station_header_def Let_def bind_err_def split: sum.splits)
  from extract_loop_contains [OF s, of fl header] h0 obtain out' where
    e: "extract_loop fl var_cols header = Inr out'"
    and c: "sd_contains_vars out' = usable fl var_cols"
    and k: "fst ` set (sd_var_data out') = set (usable fl var_cols)"
    by auto
  have u: "(usable fl var_cols = []) = (\<forall>p \<in> set var_cols. all_nan fl (snd p ! 0))"
    by (auto simp: usable_def filter_empty_conv)
  have dropped: "fst p \<notin> set (usable fl var_cols)"
    if "p \<in> set var_cols" "all_nan fl (snd p ! 0)" for p
  proof
    assume "fst p \<in> set (usable fl var_cols)"
    then obtain q where q: "q \<in> set var_cols" "\<not> all_nan fl (snd q ! 0)" "fst q = fst p"
      by (auto simp: usable_def)
    with d that(1) have "q = p"
      by (metis eq_key_imp_eq_value prod.collapse)
    with q that(2) show False by simp
  qed
  have rf: "read_file cfg fl vars_to_read vars_to_compute =
      (if usable fl var_cols = [] then Inl AllColumnsNaN
       else Inr (out' \<lparr> sd_dtime := time_stamps fl,
                        sd_contains_vars := usable fl var_cols @ vars_to_compute \<rparr>))"
    using assms e c by (simp add: read_file_def)
  show ?thesis
  proof (intro conjI impI)
    show "(read_file cfg fl vars_to_read vars_to_compute = Inl AllColumnsNaN)
             = (\<forall>p \<in> set var_cols. all_nan fl (snd p ! 0))"
      using rf u by simp
  next
    assume "\<exists>p \<in> set var_cols. \<not> all_nan fl (snd p ! 0)"
    with u have ne: "usable fl var_cols \<noteq> []" by simp
    let ?out = "out' \<lparr> sd_dtime := time_stamps fl,
                        sd_contains_vars := usable fl var_cols @ vars_to_compute \<rparr>"
    have "read_file cfg fl vars_to_read vars_to_compute = Inr ?out"
      using rf ne by simp
    moreover have "sd_contains_vars ?out = usable fl var_cols @ vars_to_compute" by simp
    moreover have "fst ` set (sd_var_data ?out) = set (usable fl var_cols)"
      using k by simp
    moreover have "\<forall>p \<in> set var_cols. all_nan fl (snd p ! 0) \<longrightarrow>
                         fst p \<notin> set (sd_contains_vars ?out) - set vars_to_compute
                         \<and> map_of (sd_var_data ?out) (fst p) = None"
    proof (intro ballI impI)
      fix p assume p: "p \<in> set var_cols" "all_nan fl (snd p ! 0)"
      from dropped [OF p] have n: "fst p \<notin> set (usable fl var_cols)" .
      with k have "fst p \<notin> fst ` set (sd_var_data out')" by simp
      then have "map_of (sd_var_data out') (fst p) = None"
        by (simp add: map_of_eq_None_iff)
      with n show "fst p \<notin> set (sd_contains_vars ?out) - set vars_to_compute
                         \<and> map_of (sd_var_data ?out) (fst p) = None"
        by simp
    qed
    ultimately show "\<exists>out. read_file cfg fl vars_to_read vars_to_compute = Inr out
                   \<and> sd_contains_vars out = usable fl var_cols @ vars_to_compute
                   \<and> fst ` set (sd_var_data out) = set (usable fl var_cols)
                   \<and> (\<forall>p \<in> set var_cols. all_nan fl (snd p ! 0) \<longrightarrow>
                         fst p \<notin> set (sd_contains_vars out) - set vars_to_compute
                         \<and> map_of (sd_var_data out) (fst p) = None)"
      by blast
  qed
qed

theorem all_nan_columns_dropped_witness:
  "(\<exists>out. read_file (ex_cfg None) ex_nan_file [''a'', ''b''] [] = Inr out
        \<and> sd_contains_vars out = [''b'']
        \<and> map_of (sd_var_data out) ''a'' = None)
   \<and> read_file (ex_cfg None) ex_all_nan_file [''a'', ''b''] [] = Inl AllColumnsNaN"
proof -
  have r1: "resolve_columns (ex_cfg None) ex_nan_file [''a'', ''b'']
              = Inr [(''a'', [0]), (''b'', [1])]"
    by (simp add: ex_nan_file_def ex_file_def ex_col_def ex_cfg_def resolve_columns_def
        get_var_cols_def col_ok_def wvl_matches_def)
  have r2: "resolve_columns (ex_cfg None) ex_all_nan_file [''a'', ''b'']
              = Inr [(''a'', [0]), (''b'', [1])]"
    by (simp add: ex_all_nan_file_def ex_file_def ex_col_def ex_cfg_def resolve_columns_def
        get_var_cols_def col_ok_def wvl_matches_def)
  obtain h1 where h1: "station_header ex_nan_file = Inr h1"
    by (simp add: station_header_def bind_err_def require_def ex_nan_file_def ex_file_def
        ex_meta_def)
  obtain h2 where h2: "station_header ex_all_nan_file = Inr h2"
    by (simp add: station_header_def bind_err_def require_def ex_all_nan_file_def
        ex_file_def ex_meta_def)
  have n1: "all_nan ex_nan_file 0" "\<not> all_nan ex_nan_file 1"
    by (simp_all add: all_nan_def nan_count_def data_column_def ex_nan_file_def ex_file_def)
  have n2: "all_nan ex_all_nan_file 0" "all_nan ex_all_nan_file 1"
    by (simp_all add: all_nan_def nan_count_def data_column_def ex_all_nan_file_def
        ex_file_def)
  have u1: "usable ex_nan_file [(''a'', [0]), (''b'', [1])] = [''b'']"
    using n1 by (simp add: usable_def)
  from all_nan_columns_dropped [OF r1 h1, of "[]"] n1 u1
  have "\<exists>out. read_file (ex_cfg None) ex_nan_file [''a'', ''b''] [] = Inr out
        \<and> sd_contains_vars out = [''b'']
        \<and> map_of (sd_var_data out) ''a'' = None"
    by auto
  moreover from all_nan_columns_dropped [OF r2 h2, of "[]"] n2
  have "read_file (ex_cfg None) ex_all_nan_file [''a'', ''b''] [] = Inl AllColumnsNaN"
    by simp
  ultimately show ?thesis by simp
qed

subsection \<open>The store while \<^verbatim>\<open>read\<close> runs\<close>

lemma length_assign_scalar [simp]:
  "length (assign_scalar start stop upd v tbl) = length tbl"
  by (auto simp: assign_scalar_def slice_len_def Let_def)

lemma length_assign_vector:
  "assign_vector start stop upd vs tbl = Inr t \<Longrightarrow> length t = length tbl"
  by (auto simp: assign_vector_def slice_len_def Let_def split: if_splits)

lemma write_var_frame:
  assumes "write_var sd nt vc var s = Inr s'"
  shows "length (u_data (data_obj s')) = length (u_data (data_obj s))
         \<and> u_ROWNO (data_obj s') = u_ROWNO (data_obj s)
         \<and> u_CHUNKSIZE (data_obj s') = u_CHUNKSIZE (data_obj s)
         \<and> idx s' = idx s \<and> meta_key s' = meta_key s
         \<and> files_failed s' = files_failed s"
  using assms
  by (auto simp: write_var_def Let_def dest!: length_assign_vector
      split: option.splits sum.splits)

lemma write_vars_frame:
  "write_vars sd nt vc vars s = Inr s' \<Longrightarrow>
     length (u_data (data_obj s')) = length (u_data (data_obj s))
     \<and> u_ROWNO (data_obj s') = u_ROWNO (data_obj s)
     \<and> u_CHUNKSIZE (data_obj s') = u_CHUNKSIZE (data_obj s)
     \<and> idx s' = idx s \<and> meta_key s' = meta_key s
     \<and> files_failed s' = files_failed s"
proof (induction vars arbitrary: vc s)
  case Nil
  then show ?case by simp
next
  case (Cons v vars)
  from Cons.prems obtain s1 where 1: "write_var sd nt vc v s = Inr s1"
    and 2: "write_vars sd nt (Suc vc) vars s1 = Inr s'"
    by (auto split: sum.splits)
  from write_var_frame [OF 1] Cons.IH [OF 2] show ?case by simp
qed

lemma append_station_step:
  assumes "append_station filename sd s = Inr s'" and "store_inv s"
  shows "store_inv s' \<and> idx s' = idx s + rows_of sd
         \<and> length (u_data (data_obj s)) \<le> length (u_data (data_obj s'))
         \<and> u_CHUNKSIZE (data_obj s') = u_CHUNKSIZE (data_obj s)
         \<and> meta_key s' = meta_key s + 1
         \<and> files_failed s' = files_failed s"
proof -
  let ?tot = "length (sd_dtime sd) * length (sd_contains_vars sd)"
  from assms(1) obtain s0 s1 where
    w: "write_vars sd (length (sd_dtime sd)) 0 (sd_contains_vars sd) s0 = Inr s1"
    and s0: "length (u_data (data_obj s0)) = u_ROWNO (data_obj s0)"
      "idx s0 = idx s" "meta_key s0 = meta_key s" "files_failed s0 = files_failed s"
      "u_CHUNKSIZE (data_obj s0) = u_CHUNKSIZE (data_obj s)"
      "u_ROWNO (data_obj s) \<le> u_ROWNO (data_obj s0)"
      "idx s + ?tot \<le> u_ROWNO (data_obj s0)"
    and s': "length (u_data (data_obj s')) = length (u_data (data_obj s1))"
      "u_ROWNO (data_obj s') = u_ROWNO (data_obj s1)"
      "u_CHUNKSIZE (data_obj s') = u_CHUNKSIZE (data_obj s1)"
      "idx s' = idx s + ?tot" "meta_key s' = meta_key s + 1"
      "files_failed s' = files_failed s1"
    using assms(2)
    by (auto simp: append_station_def Let_def add_chunk_def store_inv_def
        split: sum.splits if_splits)
  from write_vars_frame [OF w] s0 s' assms(2) show ?thesis
    by (simp add: store_inv_def rows_of_def)
qed

lemma read_loop_store:
  "read_loop cfg vtc files s = Inr s' \<Longrightarrow> store_inv s \<Longrightarrow>
     store_inv s'
     \<and> idx s' = idx s + sum_list (map rows_of (stations_read cfg vtc files))
     \<and> length (u_data (data_obj s)) \<le> length (u_data (data_obj s'))
     \<and> files_failed s' = files_failed s @ failed_names cfg vtc files"
proof (induction files arbitrary: s)
  case Nil
  then show ?case by simp
next
  case (Cons a files)
  obtain fn fl vars where a: "a = (fn, fl, vars)" by (cases a)
  show ?case
  proof (cases "read_file cfg fl vars vtc")
    case (Inl e)
    let ?s = "s \<lparr> files_failed := files_failed s @ [fn] \<rparr>"
    from Inl Cons.prems(1) a have c: "caught e"
      and r: "read_loop cfg vtc files ?s = Inr s'"
      by (auto split: if_splits)
    from Cons.prems(2) have "store_inv ?s" by (simp add: store_inv_def)
    from Cons.IH [OF r this] Inl a show ?thesis by simp
  next
    case (Inr sd)
    with Cons.prems(1) a obtain s1 where
      ap: "append_station fn sd s = Inr s1" and r: "read_loop cfg vtc files s1 = Inr s'"
      by (auto split: sum.splits)
    from append_station_step [OF ap Cons.prems(2)] Cons.IH [OF r] Inr a
    show ?thesis by simp
  qed
qed

lemma read_loop_uncaught:
  "(fn, fl, vars) \<in> set files \<Longrightarrow> read_file cfg fl vars vtc = Inl e \<Longrightarrow> \<not> caught e \<Longrightarrow>
     \<exists>e'. read_loop cfg vtc files s = Inl e'"
proof (induction files arbitrary: s)
  case Nil
  then show ?case by simp
next
  case (Cons a files)
  obtain fn' fl' vars' where a: "a = (fn', fl', vars')" by (cases a)
  show ?case
  proof (cases "a = (fn, fl, vars)")
    case True
    with Cons.prems a show ?thesis by simp
  next
    case False
    with Cons.prems have "(fn, fl, vars) \<in> set files" by simp
    from Cons.IH [OF this Cons.prems(2,3)] a show ?thesis
      by (simp split: sum.splits)
  qed
qed

lemma read_loop_all_caught:
  "read_loop cfg vtc files s = Inr s' \<Longrightarrow> (fn, fl, vars) \<in> set files \<Longrightarrow>
   read_file cfg fl vars vtc = Inl e \<Longrightarrow> caught e"
  using read_loop_uncaught [of fn fl vars files cfg vtc e s] by auto

lemma init_state_inv: "store_inv (init_state rowno chunksize)"
  by (simp add: store_inv_def init_state_def new_ungridded_data_def)

lemma read_loop_append:
  "read_loop cfg vtc (fs1 @ fs2) s =
     (case read_loop cfg vtc fs1 s of Inl e \<Rightarrow> Inl e | Inr s1 \<Rightarrow> read_loop cfg vtc fs2 s1)"
proof (induction fs1 arbitrary: s)
  case Nil
  then show ?case by simp
next
  case (Cons a fs1)
  obtain fn fl vars where a: "a = (fn, fl, vars)" by (cases a)
  with Cons show ?case by (simp split: sum.splits)
qed

lemma stations_read_append:
  "stations_read cfg vtc (fs1 @ fs2) = stations_read cfg vtc fs1 @ stations_read cfg vtc fs2"
proof (induction fs1)
  case Nil
  then show ?case by simp
next
  case (Cons a fs1)
  obtain fn fl vars where a: "a = (fn, fl, vars)" by (cases a)
  with Cons show ?case by (simp split: sum.splits)
qed

subsection \<open>\<^verbatim>\<open>read\<close> returns\<close>

text \<open>
  With no variables to compute, files whose matrix has one row per time stamp, and no
  error of \<^verbatim>\<open>read_file\<close> other than the two classes that are caught, \<^verbatim>\<open>read\<close>
  returns a store.
\<close>

lemma extract_loop_has_data:
  "extract_loop fl vc out = Inr out' \<Longrightarrow> has_data fl out \<Longrightarrow> has_data fl out'"
proof (induction vc arbitrary: out)
  case Nil
  then show ?case by simp
next
  case (Cons a vc)
  obtain v cols where a: "a = (v, cols)" by (cases a)
  from Cons.prems(1) a have l: "length cols = 1" by (auto split: if_splits)
  show ?case
  proof (cases "all_nan fl (cols ! 0)")
    case True
    with Cons a l show ?thesis by simp
  next
    case False
    let ?out = "out \<lparr>
                      sd_var_data := AList.update v (data_column fl (cols ! 0))
                                       (sd_var_data out),
                      sd_var_info := AList.update v
                                       (fill_col fl (sd_matrix out)
                                          (var_defs fl ! (cols ! 0)))
                                       (sd_var_info out),
                      sd_contains_vars := sd_contains_vars out @ [v] \<rparr>"
    from Cons.prems(2) have "has_data fl ?out"
      by (auto simp: has_data_def update_conv')
    moreover from False Cons.prems(1) a l have "extract_loop fl vc ?out = Inr out'"
      by (simp add: Let_def)
    ultimately show ?thesis by (rule Cons.IH [rotated])
  qed
qed

lemma read_file_has_data:
  assumes "read_file cfg fl vars [] = Inr sd"
  shows "has_data fl sd \<and> sd_dtime sd = time_stamps fl"
proof -
  from assms obtain vc h out where
    h: "station_header fl = Inr h" and e: "extract_loop fl vc h = Inr out"
    and sd: "sd = out \<lparr> sd_dtime := time_stamps fl,
                         sd_contains_vars := sd_contains_vars out @ [] \<rparr>"
    by (auto simp: read_file_def split: sum.splits if_splits)
  from h have "sd_contains_vars h = []"
    by (auto simp: station_header_def Let_def bind_err_def split: sum.splits)
  then have "has_data fl h" by (simp add: has_data_def)
  from extract_loop_has_data [OF e this] sd show ?thesis
    by (simp add: has_data_def)
qed

lemma slice_len_fits: "stop \<le> length tbl \<Longrightarrow> slice_len start stop tbl = stop - start"
  by (simp add: slice_len_def)

lemma write_var_ok:
  assumes "map_of (sd_var_data sd) var = Some vals" and "length vals = nt"
      and "length (sd_dtime sd) = nt" and "map_of (sd_var_info sd) var \<noteq> None"
      and "idx s + vc * nt + nt \<le> length (u_data (data_obj s))"
    shows "\<exists>s'. write_var sd nt vc var s = Inr s'"
proof -
  let ?start = "idx s + vc * nt"
  have sl: "slice_len ?start (?start + nt) t = nt"
    if "length t = length (u_data (data_obj s))" for t
    using assms(5) that by (simp add: slice_len_def)
  have av: "\<exists>t'. assign_vector ?start (?start + nt) upd vs t = Inr t'
                 \<and> length t' = length (u_data (data_obj s))"
    if "length t = length (u_data (data_obj s))" "length vs = nt" for upd vs t
    using sl [OF that(1)] that assms(5) by (auto simp: assign_vector_def Let_def)
  from assms(4) obtain vi where vi: "map_of (sd_var_info sd) var = Some vi" by auto
  let ?t4 = "assign_scalar ?start (?start + nt) (\<lambda>r v. r\<lparr>r_meta_key := v\<rparr>)
               (Some (real (meta_key s)))
            (assign_scalar ?start (?start + nt) (\<lambda>r v. r\<lparr>r_alt := v\<rparr>)
               (Some (sd_stat_alt sd))
            (assign_scalar ?start (?start + nt) (\<lambda>r v. r\<lparr>r_lon := v\<rparr>)
               (Some (sd_stat_lon sd))
            (assign_scalar ?start (?start + nt) (\<lambda>r v. r\<lparr>r_lat := v\<rparr>)
               (Some (sd_stat_lat sd)) (u_data (data_obj s)))))"
  have "length ?t4 = length (u_data (data_obj s))" by simp
  from av [OF this, of "map (\<lambda>t. Some (real_of_int t)) (sd_dtime sd)" "\<lambda>r v. r\<lparr>r_time := v\<rparr>"]
  obtain t5 where t5: "assign_vector ?start (?start + nt) (\<lambda>r v. r\<lparr>r_time := v\<rparr>)
       (map (\<lambda>t. Some (real_of_int t)) (sd_dtime sd)) ?t4 = Inr t5"
    and l5: "length t5 = length (u_data (data_obj s))"
    using assms(3) by auto
  from av [OF l5 assms(2), of "\<lambda>r v. r\<lparr>r_value := v\<rparr>"]
  obtain t6 where t6: "assign_vector ?start (?start + nt) (\<lambda>r v. r\<lparr>r_value := v\<rparr>) vals t5 = Inr t6"
    by auto
  show ?thesis
    using assms(1) vi t5 t6 by (simp add: write_var_def Let_def)
qed

lemma write_vars_ok:
  "\<forall>v \<in> set vars. (\<exists>vals. map_of (sd_var_data sd) v = Some vals \<and> length vals = nt)
        \<and> map_of (sd_var_info sd) v \<noteq> None \<Longrightarrow>
   length (sd_dtime sd) = nt \<Longrightarrow>
   idx s + (vc + length vars) * nt \<le> length (u_data (data_obj s)) \<Longrightarrow>
     \<exists>s'. write_vars sd nt vc vars s = Inr s'"
proof (induction vars arbitrary: vc s)
  case Nil
  then show ?case by simp
next
  case (Cons v vars)
  from Cons.prems(1) obtain vals where v: "map_of (sd_var_data sd) v = Some vals"
    "length vals = nt" "map_of (sd_var_info sd) v \<noteq> None"
    by auto
  from Cons.prems(3) have "idx s + vc * nt + nt \<le> length (u_data (data_obj s))"
    by (simp add: algebra_simps)
  from write_var_ok [OF v(1) v(2) Cons.prems(2) v(3) this]
  obtain s1 where s1: "write_var sd nt vc v s = Inr s1" by blast
  from write_var_frame [OF s1] Cons.prems(3)
  have "idx s1 + (Suc vc + length vars) * nt \<le> length (u_data (data_obj s1))"
    by simp
  with Cons.IH [of s1 "Suc vc"] Cons.prems(1,2)
  obtain s' where "write_vars sd nt (Suc vc) vars s1 = Inr s'" by auto
  with s1 show ?case by simp
qed

lemma append_station_ok:
  assumes "well_formed sd" and "store_inv s"
  shows "\<exists>s'. append_station filename sd s = Inr s'"
proof -
  let ?nt = "length (sd_dtime sd)"
  let ?tot = "?nt * length (sd_contains_vars sd)"
  let ?entry = "\<lparr> me_station_name = sd_station_name sd,
                    me_station_name_orig = sd_station_name_orig sd,
                    me_ts_type = sd_ts_type sd,
                    me_instrument_name = sd_instrument_name sd,
                    me_revision_date = sd_revision_date sd,
                    me_filename = filename,
                    me_var_info = [],
                    me_variables = [] \<rparr>"
  let ?d1 = "(data_obj s) \<lparr> u_metadata := AList.update (meta_key s) ?entry (u_metadata (data_obj s)),
                   u_meta_idx := AList.update (meta_key s) [] (u_meta_idx (data_obj s)) \<rparr>"
  let ?d2 = "if idx s + ?tot \<ge> u_ROWNO ?d1 then add_chunk ?tot ?d1 else ?d1"
  let ?s0 = "s \<lparr> data_obj := ?d2 \<rparr>"
  from assms(2) have "idx ?s0 + (0 + length (sd_contains_vars sd)) * ?nt
                        \<le> length (u_data (data_obj ?s0))"
    by (auto simp: store_inv_def add_chunk_def Let_def mult.commute)
  with write_vars_ok [of "sd_contains_vars sd" sd ?nt ?s0 0] assms(1)
  obtain s1 where "write_vars sd ?nt 0 (sd_contains_vars sd) ?s0 = Inr s1"
    by (auto simp: well_formed_def)
  then show ?thesis
    by (simp add: append_station_def Let_def)
qed

lemma length_data_column [simp]: "length (data_column fl c) = length (data fl)"
  by (simp add: data_column_def)

lemma read_file_well_formed:
  assumes "read_file cfg fl vars [] = Inr sd" and "length (time_stamps fl) = length (data fl)"
  shows "well_formed sd"
  using read_file_has_data [OF assms(1)] assms(2)
  by (fastforce simp: well_formed_def has_data_def)

lemma read_loop_ok:
  "\<forall>(fn, fl, vars) \<in> set files. length (time_stamps fl) = length (data fl)
      \<and> (\<forall>e. read_file cfg fl vars [] = Inl e \<longrightarrow> caught e) \<Longrightarrow>
   store_inv s \<Longrightarrow> \<exists>s'. read_loop cfg [] files s = Inr s'"
proof (induction files arbitrary: s)
  case Nil
  then show ?case by simp
next
  case (Cons a files)
  obtain fn fl vars where a: "a = (fn, fl, vars)" by (cases a)
  from Cons.prems(1) a have len: "length (time_stamps fl) = length (data fl)"
    and c: "\<And>e. read_file cfg fl vars [] = Inl e \<Longrightarrow> caught e"
    and rest: "\<forall>(fn, fl, vars) \<in> set files. length (time_stamps fl) = length (data fl)
      \<and> (\<forall>e. read_file cfg fl vars [] = Inl e \<longrightarrow> caught e)"
    by auto
  show ?case
  proof (cases "read_file cfg fl vars []")
    case (Inl e)
    let ?s = "s \<lparr> files_failed := files_failed s @ [fn] \<rparr>"
    from Cons.prems(2) have "store_inv ?s" by (simp add: store_inv_def)
    from Cons.IH [OF rest this] Inl c [OF Inl] a show ?thesis by simp
  next
    case (Inr sd)
    from append_station_ok [OF read_file_well_formed [OF Inr len] Cons.prems(2)]
    obtain s1 where s1: "append_station fn sd s = Inr s1" by blast
    from append_station_step [OF s1 Cons.prems(2)] have "store_inv s1" by simp
    from Cons.IH [OF rest this] Inr s1 a show ?thesis by simp
  qed
qed

lemma read_ok:
  assumes "\<forall>(fn, fl, vars) \<in> set files. length (time_stamps fl) = length (data fl)
      \<and> (\<forall>e. read_file cfg fl vars [] = Inl e \<longrightarrow> caught e)"
  shows "\<exists>d failed. read cfg rowno chunksize [] files = Inr (d, failed)"
  using read_loop_ok [OF assms init_state_inv, of rowno chunksize]
  by (auto simp: read_def)

lemma read_file_rows:
  assumes "read_file cfg fl vars vtc = Inr sd"
  shows "\<exists>vc. resolve_columns cfg fl vars = Inr vc
           \<and> sd_contains_vars sd = usable fl vc @ vtc
           \<and> sd_dtime sd = time_stamps fl"
proof -
  from assms obtain vc h out where
    r: "resolve_columns cfg fl vars = Inr vc"
    and h: "station_header fl = Inr h" and e: "extract_loop fl vc h = Inr out"
    and sd: "sd = out \<lparr> sd_dtime := time_stamps fl,
                         sd_contains_vars := sd_contains_vars out @ vtc \<rparr>"
    by (auto simp: read_file_def split: sum.splits if_splits)
  from h have h0: "sd_contains_vars h = []"
    by (auto simp: station_header_def Let_def bind_err_def split: sum.splits)
  from resolve_columns_single [OF r] have "\<forall>p \<in> set vc. length (snd p) = 1" by simp
  from extract_loop_contains [OF this, of fl h] e h0
  have "sd_contains_vars out = usable fl vc" by auto
  with r sd show ?thesis by simp
qed

subsection \<open>The example batch\<close>

lemmas ex_simps = ex_file_def ex_col_def ex_cfg_def ex_meta_def
  read_file_def resolve_columns_def get_var_cols_def col_ok_def wvl_matches_def
  station_header_def bind_err_def require_def all_nan_def nan_count_def data_column_def
  TS_TYPE_CODES_def MERGE_STATIONS_def

lemma ex_read_nan_file: "\<exists>sd. read_file (ex_cfg None) ex_nan_file [''a'', ''b''] [] = Inr sd
    \<and> sd_contains_vars sd = [''b''] \<and> sd_dtime sd = [0, 1]"
  by (simp add: ex_nan_file_def ex_simps)

lemma ex_read_all_nan_file: "read_file (ex_cfg None) ex_all_nan_file [''a'', ''b''] [] = Inl AllColumnsNaN"
  by (simp add: ex_all_nan_file_def ex_simps)

lemma ex_read_ab_file: "\<exists>sd. read_file (ex_cfg None) ex_ab_file [''a'', ''b''] [] = Inr sd
    \<and> sd_contains_vars sd = [''a'', ''b''] \<and> sd_dtime sd = [0]"
  by (simp add: ex_ab_file_def ex_simps)

lemma ex_read_one_wvl_file: "read_file (ex_cfg None) ex_one_wvl_file [''sc''] [] = Inl RequireWavelength"
  by (simp add: ex_one_wvl_file_def ex_simps)

lemma ex_files_ok:
  "\<forall>(fn, fl, vars) \<in> set ex_files. length (time_stamps fl) = length (data fl)
      \<and> (\<forall>e. read_file (ex_cfg None) fl vars [] = Inl e \<longrightarrow> caught e)"
  using ex_read_nan_file ex_read_all_nan_file ex_read_ab_file
  by (auto simp: ex_files_def caught_def ex_nan_file_def ex_all_nan_file_def ex_ab_file_def
      ex_file_def)

lemma ex_rows: "sum_list (map rows_of (stations_read (ex_cfg None) [] ex_files)) = 4"
  using ex_read_nan_file ex_read_all_nan_file ex_read_ab_file by (auto simp: ex_files_def rows_of_def)


lemma ex_failed: "failed_names (ex_cfg None) [] ex_files = [''f2'']"
  using ex_read_nan_file ex_read_all_nan_file ex_read_ab_file by (auto simp: ex_files_def)

subsection \<open>Store capacity\<close>

text \<open>
  C5: when \<^verbatim>\<open>read\<close> returns, the table has exactly as many rows as were appended: the
  sum, over the files read without error, of the number of time stamps times the number
  of variables of the station record (the resolved variables with usable data, and the
  variables to compute, of which \<^verbatim>\<open>read\<close> has none when it is called as the reader
  is); no slack is left. The table returned is the table of the loop cut once to the
  rows written; during the loop, after any number of files, the rows written fit into
  the table, and the table never gets shorter.
\<close>

theorem store_capacity_law:
  assumes "read cfg rowno chunksize vtc files = Inr (d, failed)"
  shows "length (u_data d) = sum_list (map rows_of (stations_read cfg vtc files))
         \<and> (\<forall>(fn, fl, vars) \<in> set files. \<forall>sd. read_file cfg fl vars vtc = Inr sd \<longrightarrow>
               (\<exists>vc. resolve_columns cfg fl vars = Inr vc
                  \<and> rows_of sd = length (time_stamps fl) * (length (usable fl vc) + length vtc)))
         \<and> (\<exists>s. read_loop cfg vtc files (init_state rowno chunksize) = Inr s
                \<and> u_data d = take (idx s) (u_data (data_obj s))
                \<and> idx s = length (u_data d)
                \<and> idx s \<le> length (u_data (data_obj s)))
         \<and> (\<forall>fs1 fs2 s1. files = fs1 @ fs2
                \<and> read_loop cfg vtc fs1 (init_state rowno chunksize) = Inr s1 \<longrightarrow>
                idx s1 \<le> length (u_data (data_obj s1))
                \<and> rowno \<le> length (u_data (data_obj s1))
                \<and> (\<exists>s2. read_loop cfg vtc fs2 s1 = Inr s2
                      \<and> length (u_data (data_obj s1)) \<le> length (u_data (data_obj s2))))"
proof -
  from assms obtain s where l: "read_loop cfg vtc files (init_state rowno chunksize) = Inr s"
    and d: "d = trim s"
    by (auto simp: read_def split: sum.splits)
  from read_loop_store [OF l init_state_inv]
  have i: "store_inv s"
    and x: "idx s = sum_list (map rows_of (stations_read cfg vtc files))"
    by (simp_all add: init_state_def)
  from i have le: "idx s \<le> length (u_data (data_obj s))" by (simp add: store_inv_def)
  with d x have 1: "length (u_data d) = sum_list (map rows_of (stations_read cfg vtc files))"
    by (simp add: trim_def)
  have 2: "\<forall>(fn, fl, vars) \<in> set files. \<forall>sd. read_file cfg fl vars vtc = Inr sd \<longrightarrow>
               (\<exists>vc. resolve_columns cfg fl vars = Inr vc
                  \<and> rows_of sd = length (time_stamps fl) * (length (usable fl vc) + length vtc))"
    using read_file_rows by (fastforce simp: rows_of_def)
  have 3: "\<exists>s. read_loop cfg vtc files (init_state rowno chunksize) = Inr s
                \<and> u_data d = take (idx s) (u_data (data_obj s))
                \<and> idx s = length (u_data d)
                \<and> idx s \<le> length (u_data (data_obj s))"
    using l d le 1 x by (auto simp: trim_def)
  have 4: "idx s1 \<le> length (u_data (data_obj s1))
                \<and> rowno \<le> length (u_data (data_obj s1))
                \<and> (\<exists>s2. read_loop cfg vtc fs2 s1 = Inr s2
                      \<and> length (u_data (data_obj s1)) \<le> length (u_data (data_obj s2)))"
    if "files = fs1 @ fs2 \<and> read_loop cfg vtc fs1 (init_state rowno chunksize) = Inr s1"
    for fs1 fs2 s1
  proof -
    from that l have r2: "read_loop cfg vtc fs2 s1 = Inr s"
      by (simp add: read_loop_append)
    from that read_loop_store [OF _ init_state_inv, of cfg vtc fs1 rowno chunksize s1]
    have i1: "store_inv s1" and g: "rowno \<le> length (u_data (data_obj s1))"
      by (simp_all add: init_state_def new_ungridded_data_def)
    from read_loop_store [OF r2 i1] i1 g r2 show ?thesis
      by (auto simp: store_inv_def)
  qed
  from 1 2 3 4 show ?thesis by blast
qed

theorem store_capacity_law_witness:
  "\<exists>d failed. read (ex_cfg None) 1 1 [] ex_files = Inr (d, failed)
      \<and> length (u_data d) = 4"
proof -
  from read_ok [OF ex_files_ok, of 1 1] obtain d failed
    where r: "read (ex_cfg None) 1 1 [] ex_files = Inr (d, failed)" by blast
  from store_capacity_law [OF r] ex_rows have "length (u_data d) = 4" by simp
  with r show ?thesis by blast
qed

subsection \<open>The registry of variable indices\<close>



lemma keys_numbered [simp]: "fst ` set (numbered names) = set names"
proof -
  have "map fst (numbered names) = names" by (simp add: numbered_def)
  then show ?thesis by (metis set_map)
qed










lemma set_foldl_add_new: "set (foldl add_new names ws) = set names \<union> set ws"
  by (induction ws arbitrary: names) (auto simp: add_new_def)




subsection \<open>Files that fail\<close>

text \<open>
  C7, as stated, fails: an error of \<^verbatim>\<open>read_file\<close> of another class than
  NotInFileError and EbasFileError is not caught. A file with a wavelength column for a
  variable without wavelength raises VariableDefinitionError, and \<^verbatim>\<open>read\<close> ends with
  it, although the next file could be read.
\<close>

theorem failure_isolation_counterexample:
  "read (ex_cfg None) 1 1 []
     [(''g'', ex_one_wvl_file, [''sc'']), (''f1'', ex_nan_file, [''a'', ''b''])]
     = Inl RequireWavelength \<and> \<not> caught RequireWavelength"
  using ex_read_one_wvl_file by (simp add: read_def caught_def)

text \<open>
  C7, amended: when \<^verbatim>\<open>read\<close> returns, the list of failed files holds exactly the
  files on which \<^verbatim>\<open>read_file\<close> raised, each of these errors being a NotInFileError
  or an EbasFileError, and the other files were read; an error of \<^verbatim>\<open>read_file\<close> of
  any other class is not caught and ends the batch.
\<close>

theorem failure_isolation_amended:
  "(read cfg rowno chunksize vtc files = Inr (d, failed) \<longrightarrow>
      failed = failed_names cfg vtc files
      \<and> (\<forall>(fn, fl, vars) \<in> set files. \<forall>e. read_file cfg fl vars vtc = Inl e \<longrightarrow>
             class_of e = NotInFileError \<or> class_of e = EbasFileError))
   \<and> ((fn, fl, vars) \<in> set files \<and> read_file cfg fl vars vtc = Inl e
        \<and> class_of e \<noteq> NotInFileError \<and> class_of e \<noteq> EbasFileError \<longrightarrow>
        (\<exists>e'. read cfg rowno chunksize vtc files = Inl e'))"
proof (intro conjI impI)
  assume r: "read cfg rowno chunksize vtc files = Inr (d, failed)"
  then obtain s where l: "read_loop cfg vtc files (init_state rowno chunksize) = Inr s"
    and f: "failed = files_failed s"
    by (auto simp: read_def split: sum.splits)
  from read_loop_store [OF l init_state_inv] f
  show "failed = failed_names cfg vtc files" by (simp add: init_state_def)
  show "\<forall>(fn, fl, vars) \<in> set files. \<forall>e. read_file cfg fl vars vtc = Inl e \<longrightarrow>
             class_of e = NotInFileError \<or> class_of e = EbasFileError"
    using read_loop_all_caught [OF l] by (auto simp: caught_def)
next
  assume "(fn, fl, vars) \<in> set files \<and> read_file cfg fl vars vtc = Inl e
        \<and> class_of e \<noteq> NotInFileError \<and> class_of e \<noteq> EbasFileError"
  then have "\<exists>e'. read_loop cfg vtc files (init_state rowno chunksize) = Inl e'"
    using read_loop_uncaught [of fn fl vars files cfg vtc e] by (simp add: caught_def)
  then show "\<exists>e'. read cfg rowno chunksize vtc files = Inl e'"
    by (auto simp: read_def)
qed

theorem failure_isolation_witness:
  "(\<exists>d. read (ex_cfg None) 1 1 [] ex_files = Inr (d, [''f2'']))
   \<and> (\<exists>e'. read (ex_cfg None) 1 1 [] [(''g'', ex_one_wvl_file, [''sc''])] = Inl e')"
proof -
  from read_ok [OF ex_files_ok, of 1 1] obtain d failed
    where r: "read (ex_cfg None) 1 1 [] ex_files = Inr (d, failed)" by blast
  from failure_isolation_amended [of "ex_cfg None" 1 1 "[]" ex_files d failed] r ex_failed
  have "failed = [''f2'']" by simp
  with r have 1: "\<exists>d. read (ex_cfg None) 1 1 [] ex_files = Inr (d, [''f2''])" by blast
  from failure_isolation_amended [of "ex_cfg None" 1 1 "[]"
      "[(''g'', ex_one_wvl_file, [''sc''])]" _ _ "''g''" ex_one_wvl_file "[''sc'']"
      RequireWavelength] ex_read_one_wvl_file
  have 2: "\<exists>e'. read (ex_cfg None) 1 1 [] [(''g'', ex_one_wvl_file, [''sc''])] = Inl e'"
    by simp
  from 1 2 show ?thesis by simp
qed

subsection \<open>The order of the candidate columns\<close>

text \<open>
  The candidates come in ascending column order out of \<^verbatim>\<open>_get_var_cols\<close>, and every
  loop of the resolver keeps the order of the columns it keeps.
\<close>

lemma col_matches_from_sorted:
  "sorted_wrt (<) (col_matches_from info fl n defs)
   \<and> (\<forall>c \<in> set (col_matches_from info fl n defs). n \<le> c)"
proof (induction defs arbitrary: n)
  case Nil
  then show ?case by simp
next
  case (Cons d defs)
  from Cons [of "Suc n"] show ?case by (auto simp: Suc_le_eq dest: Suc_leD)
qed

lemma get_var_cols_sorted:
  "get_var_cols info fl = Inr cm \<Longrightarrow> sorted_wrt (<) cm"
  using col_matches_from_sorted [of info fl 0 "var_defs fl"]
  by (auto simp: get_var_cols_def Let_def split: if_splits)

lemma sorted_wrt_drop_mid:
  "sorted_wrt P (ms @ c # cs) \<Longrightarrow> sorted_wrt P (ms @ cs) \<and> sorted_wrt P (c # cs)"
  by (auto simp: sorted_wrt_append)

lemma wvl_loop_sorted:
  "wvl_loop fl wvl cs md ms = Inr r \<Longrightarrow> sorted_wrt (<) (ms @ cs) \<Longrightarrow> sorted_wrt (<) r"
proof (induction cs arbitrary: md ms)
  case Nil
  then show ?case by simp
next
  case (Cons c cs)
  from sorted_wrt_drop_mid [OF Cons.prems(2)]
  have a: "sorted_wrt (<) (ms @ cs)" and b: "sorted_wrt (<) ([c] @ cs)" by simp_all
  from Cons.prems(2) have d: "sorted_wrt (<) ((ms @ [c]) @ cs)" by simp
  from Cons.prems(1) consider md' where "wvl_loop fl wvl cs md' ms = Inr r"
    | md' where "wvl_loop fl wvl cs md' [c] = Inr r"
    | md' where "wvl_loop fl wvl cs md' (ms @ [c]) = Inr r"
    by (auto simp: Let_def split: option.splits if_splits)
  then show ?case
    using Cons.IH a b d by cases blast+
qed

lemma matrix_loop_sorted:
  "matrix_loop fl pm cs best mm = Inr (best', r) \<Longrightarrow> sorted_wrt (<) (mm @ cs) \<Longrightarrow>
     sorted_wrt (<) r"
proof (induction cs arbitrary: best mm)
  case Nil
  then show ?case by simp
next
  case (Cons c cs)
  from sorted_wrt_drop_mid [OF Cons.prems(2)]
  have a: "sorted_wrt (<) (mm @ cs)" and b: "sorted_wrt (<) ([c] @ cs)" by simp_all
  from Cons.prems(2) have d: "sorted_wrt (<) ((mm @ [c]) @ cs)" by simp
  from Cons.prems(1) consider b' where "matrix_loop fl pm cs b' mm = Inr (best', r)"
    | b' where "matrix_loop fl pm cs b' [c] = Inr (best', r)"
    | b' where "matrix_loop fl pm cs b' (mm @ [c]) = Inr (best', r)"
    by (auto simp: Let_def split: option.splits if_splits)
  then show ?case
    using Cons.IH a b d by cases blast+
qed

lemma statistics_loop_sorted:
  "statistics_loop fl ps cs best rc = Inr r \<Longrightarrow> sorted_wrt (<) (rc @ cs) \<Longrightarrow>
     sorted_wrt (<) r"
proof (induction cs arbitrary: best rc)
  case Nil
  then show ?case by simp
next
  case (Cons c cs)
  from sorted_wrt_drop_mid [OF Cons.prems(2)]
  have a: "sorted_wrt (<) (rc @ cs)" and b: "sorted_wrt (<) ([c] @ cs)" by simp_all
  from Cons.prems(2) have d: "sorted_wrt (<) ((rc @ [c]) @ cs)" by simp
  from Cons.prems(1) consider b' where "statistics_loop fl ps cs b' rc = Inr r"
    | b' where "statistics_loop fl ps cs b' [c] = Inr r"
    | b' where "statistics_loop fl ps cs b' (rc @ [c]) = Inr r"
    by (auto simp: Let_def split: option.splits if_splits)
  then show ?case
    using Cons.IH a b d by cases blast+
qed

lemma argmin_first_min:
  "xs \<noteq> [] \<Longrightarrow> argmin xs < length xs
     \<and> (\<forall>i < length xs. xs ! argmin xs \<le> xs ! i)
     \<and> (\<forall>i < argmin xs. xs ! argmin xs < xs ! i)"
proof (induction xs rule: argmin.induct)
  case 1
  then show ?case by simp
next
  case (2 x)
  then show ?case by simp
next
  case (3 x y ys)
  let ?j = "argmin (y # ys)"
  from 3 have j: "?j < length (y # ys)"
    and m: "\<forall>i < length (y # ys). (y # ys) ! ?j \<le> (y # ys) ! i"
    and f: "\<forall>i < ?j. (y # ys) ! ?j < (y # ys) ! i"
    by simp_all
  show ?case
  proof (cases "x \<le> (y # ys) ! ?j")
    case True
    then have a: "argmin (x # y # ys) = 0" by (simp add: Let_def)
    have "\<forall>i < length (x # y # ys). x \<le> (x # y # ys) ! i"
    proof (intro allI impI)
      fix i assume "i < length (x # y # ys)"
      then show "x \<le> (x # y # ys) ! i"
        using True m by (cases i) (auto intro: order_trans)
    qed
    with a show ?thesis by simp
  next
    case False
    then have a: "argmin (x # y # ys) = Suc ?j" by (simp add: Let_def)
    have "\<forall>i < length (x # y # ys). (y # ys) ! ?j \<le> (x # y # ys) ! i"
    proof (intro allI impI)
      fix i assume "i < length (x # y # ys)"
      then show "(y # ys) ! ?j \<le> (x # y # ys) ! i"
        using False m by (cases i) auto
    qed
    moreover have "\<forall>i < Suc ?j. (y # ys) ! ?j < (x # y # ys) ! i"
    proof (intro allI impI)
      fix i assume "i < Suc ?j"
      then show "(y # ys) ! ?j < (x # y # ys) ! i"
        using False f by (cases i) auto
    qed
    ultimately show ?thesis using a j by simp
  qed
qed

lemma fewest_nan_lowest:
  assumes "rc \<noteq> []" and "sorted_wrt (<) rc"
  shows "\<exists>c. fewest_nan fl rc = [c] \<and> c \<in> set rc
           \<and> (\<forall>c' \<in> set rc. nan_count (data_column fl c) \<le> nan_count (data_column fl c')
                 \<and> (nan_count (data_column fl c') = nan_count (data_column fl c) \<longrightarrow> c \<le> c'))"
proof -
  let ?n = "num_invalid fl rc"
  let ?j = "argmin ?n"
  from assms(1) have ne: "?n \<noteq> []" and len: "length ?n = length rc"
    by (simp_all add: num_invalid_def)
  from argmin_first_min [OF ne] len have j: "?j < length rc"
    and m: "\<forall>i < length rc. ?n ! ?j \<le> ?n ! i"
    and f: "\<forall>i < ?j. ?n ! ?j < ?n ! i"
    by simp_all
  have nth: "?n ! i = nan_count (data_column fl (rc ! i))" if "i < length rc" for i
    using that by (simp add: num_invalid_def)
  have "nan_count (data_column fl (rc ! ?j)) \<le> nan_count (data_column fl c')
          \<and> (nan_count (data_column fl c') = nan_count (data_column fl (rc ! ?j)) \<longrightarrow> rc ! ?j \<le> c')"
    if "c' \<in> set rc" for c'
  proof -
    from that obtain i where i: "i < length rc" "c' = rc ! i"
      by (auto simp: in_set_conv_nth)
    from m i nth j have 1: "nan_count (data_column fl (rc ! ?j)) \<le> nan_count (data_column fl c')"
      by auto
    have 2: "rc ! ?j \<le> c'" if eq: "nan_count (data_column fl c') = nan_count (data_column fl (rc ! ?j))"
    proof -
      from f eq i nth j have "\<not> i < ?j" by auto
      then have "?j \<le> i" by simp
      then show ?thesis
        using assms(2) i sorted_wrt_nth_less [of "(<)" rc ?j i]
        by (cases "?j = i") auto
    qed
    from 1 2 show ?thesis by blast
  qed
  with j show ?thesis by (auto simp: fewest_nan_def)
qed

text \<open>
  C8: column resolution is a function of the variable specification and the parsed file
  (nothing else enters the model: the code draws no random numbers and iterates over
  lists only), so two runs on the same inputs choose the same column. When the
  statistics step leaves several columns, the NaN count decides, and among the columns
  with the least NaN count the one with the lowest column index is chosen.
\<close>

theorem nan_tie_break_lowest_index:
  assumes "get_var_cols info fl = Inr col_matches"
      and "wvl_matches fl wvl col_matches = Inr cols"
      and "matrix_stage cols info fl = Inr matrix_matches"
      and "length matrix_matches \<noteq> 1"
      and "statistics_stage matrix_matches info fl = Inr result_col"
      and "length result_col > 1"
    shows "(\<exists>c. find_best_data_column cols info fl = Inr [c] \<and> c \<in> set result_col
             \<and> (\<forall>c' \<in> set result_col.
                   nan_count (data_column fl c) \<le> nan_count (data_column fl c')
                   \<and> (nan_count (data_column fl c') = nan_count (data_column fl c) \<longrightarrow> c \<le> c')))
           \<and> (\<forall>r1 r2. find_best_data_column cols info fl = r1
                  \<and> find_best_data_column cols info fl = r2 \<longrightarrow> r1 = r2)"
proof -
  from get_var_cols_sorted [OF assms(1)] have "sorted_wrt (<) ([] @ col_matches)" by simp
  with assms(2) have sc: "sorted_wrt (<) cols"
    unfolding wvl_matches_def by (rule wvl_loop_sorted)
  have sm: "sorted_wrt (<) matrix_matches"
  proof -
    from assms(3) obtain best mm where
      l: "matrix_loop fl (info_matrix info) cols 9999 [] = Inr (best, mm)"
      and r: "matrix_matches = (if best = 9999 then cols else mm)"
      by (auto simp: matrix_stage_def split: sum.splits)
    from sc have "sorted_wrt (<) ([] @ cols)" by simp
    with l have "sorted_wrt (<) mm" by (rule matrix_loop_sorted)
    with r sc show ?thesis by simp
  qed
  then have "sorted_wrt (<) ([] @ matrix_matches)" by simp
  with assms(5) have sr: "sorted_wrt (<) result_col"
    unfolding statistics_stage_def by (rule statistics_loop_sorted)
  from assms(6) have ne: "result_col \<noteq> []" by auto
  from assms(3-6) ne have "find_best_data_column cols info fl = Inr (fewest_nan fl result_col)"
    by (simp add: find_best_data_column_def)
  with fewest_nan_lowest [OF ne sr, of fl] show ?thesis by auto
qed

theorem nan_tie_break_lowest_index_witness:
  "find_best_data_column [0, 1, 2] (ebas_info (ex_cfg None) ''sc'') ex_tie_file = Inr [1]
   \<and> map (\<lambda>c. nan_count (data_column ex_tie_file c)) [0, 1, 2] = [1, 0, 0]"
proof -
  let ?info = "ebas_info (ex_cfg None) ''sc''"
  have a: "get_var_cols ?info ex_tie_file = Inr [0, 1, 2]"
    by (simp add: ex_tie_file_def ex_file_def ex_col_def ex_cfg_def get_var_cols_def col_ok_def)
  have b: "wvl_matches ex_tie_file None [0, 1, 2] = Inr [0, 1, 2]"
    by (simp add: ex_tie_file_def ex_file_def ex_col_def wvl_matches_def)
  have c: "matrix_stage [0, 1, 2] ?info ex_tie_file = Inr [0, 1, 2]"
    by (simp add: ex_tie_file_def ex_file_def ex_col_def ex_cfg_def matrix_stage_def)
  have d: "length [0::nat, 1, 2] \<noteq> 1" by simp
  have e: "statistics_stage [0, 1, 2] ?info ex_tie_file = Inr [0, 1, 2]"
    by (simp add: ex_tie_file_def ex_file_def ex_col_def ex_cfg_def ex_meta_def
        statistics_stage_def PREFER_STATISTICS_def)
  have f: "length [0::nat, 1, 2] > 1" by simp
  have n: "map (\<lambda>c. nan_count (data_column ex_tie_file c)) [0, 1, 2] = [1, 0, 0]"
    by (simp add: ex_tie_file_def ex_file_def nan_count_def data_column_def)
  from nan_tie_break_lowest_index [OF a b c d e f] obtain c where
    r: "find_best_data_column [0, 1, 2] ?info ex_tie_file = Inr [c]"
    and m: "c \<in> set [0, 1, 2]"
    and l: "\<forall>c' \<in> set [0, 1, 2].
              nan_count (data_column ex_tie_file c) \<le> nan_count (data_column ex_tie_file c')
              \<and> (nan_count (data_column ex_tie_file c') = nan_count (data_column ex_tie_file c)
                   \<longrightarrow> c \<le> c')"
    by blast
  from n have n0: "nan_count (data_column ex_tie_file 0) = 1"
    and n1: "nan_count (data_column ex_tie_file 1) = 0"
    and n2: "nan_count (data_column ex_tie_file 2) = 0" by simp_all
  from m l n0 n1 n2 have "c = 1" by auto
  with r n show ?thesis by simp
qed

subsection \<open>Interpolation of profiles\<close>

lemma interp_point_below:
  "ps \<noteq> [] \<Longrightarrow> sorted_wrt (<) (map fst ps) \<Longrightarrow> x \<le> fst (hd ps) \<Longrightarrow>
     interp_point x ps = snd (hd ps)"
proof (induction x ps rule: interp_point.induct)
  case (1 x)
  then show ?case by simp
next
  case (2 x x0 y0)
  then show ?case by simp
next
  case (3 x x0 y0 x1 y1 rest)
  then show ?case by auto
qed

lemma interp_point_above:
  "ps \<noteq> [] \<Longrightarrow> sorted_wrt (<) (map fst ps) \<Longrightarrow> fst (last ps) \<le> x \<Longrightarrow>
     interp_point x ps = snd (last ps)"
proof (induction x ps rule: interp_point.induct)
  case (1 x)
  then show ?case by simp
next
  case (2 x x0 y0)
  then show ?case by simp
next
  case (3 x x0 y0 x1 y1 rest)
  from "3.prems" have "x1 \<le> fst (last ((x1, y1) # rest))"
    by (cases rest) (auto simp: less_imp_le)
  with "3.prems" have "\<not> x < x1" by simp
  with 3 show ?case by simp
qed

lemma interp_point_between:
  "Suc j < length ps \<Longrightarrow> sorted_wrt (<) (map fst ps) \<Longrightarrow>
   fst (ps ! j) \<le> x \<Longrightarrow> x < fst (ps ! Suc j) \<Longrightarrow>
     interp_point x ps =
       (if x = fst (ps ! j) then snd (ps ! j)
        else lin x (fst (ps ! j)) (snd (ps ! j)) (fst (ps ! Suc j)) (snd (ps ! Suc j)))"
proof (induction x ps arbitrary: j rule: interp_point.induct)
  case (1 x)
  then show ?case by simp
next
  case (2 x x0 y0)
  then show ?case by simp
next
  case (3 x x0 y0 x1 y1 rest)
  show ?case
  proof (cases j)
    case 0
    with "3.prems" show ?thesis by auto
  next
    case (Suc k)
    with "3.prems" have k: "Suc k < length ((x1, y1) # rest)" by simp
    from "3.prems"(2) have s: "sorted_wrt (<) (map fst ((x1, y1) # rest))" by simp
    have "x1 \<le> fst (((x1, y1) # rest) ! k)"
    proof (cases k)
      case 0
      then show ?thesis by simp
    next
      case (Suc i)
      with k s show ?thesis by (auto simp: less_imp_le)
    qed
    with "3.prems"(3) Suc have nx: "\<not> x < x1" by simp
    from "3.IH" [OF nx k s] "3.prems"(3,4) Suc nx show ?thesis by simp
  qed
qed

lemmas ex_merge_simps = ex_methods_def ex_station_def ex_profile1_def ex_profile2_def
  ex_flat_def profile_column_def np_interp_def lin_def

text \<open>
  C2, as stated, fails: \<^verbatim>\<open>numpy.interp\<close> is called with its default \<^verbatim>\<open>left\<close> and
  \<^verbatim>\<open>right\<close>, so a grid point outside the native range of an input gets the value of
  the nearest end of the profile, not a missing value. For the input with levels 5 and
  15 and values 4 and 5, the grid points 0 and 20 get 4 and 5.
\<close>

theorem profile_interpolation_counterexample:
  "profile_column ex_methods ''v'' ex_profile2
     = Inr [Some 4, Some 4, Some (9 / 2), Some 5, Some 5]
   \<and> make_default_vert_grid ex_methods = [0, 5, 10, 15, 20]
   \<and> st_altitude ex_profile2 = Levels [5, 15]
   \<and> merge_station_data ex_methods [ex_profile1, ex_profile2] ''v'' None True False
     = Inr (Profile ex_profile1
              \<lparr> pa_time = [1, 2], pa_altitude = [0, 5, 10, 15, 20],
                pa_columns = [[Some 1, Some (3 / 2), Some 2, Some (5 / 2), Some 3],
                              [Some 4, Some 4, Some (9 / 2), Some 5, Some 5]] \<rparr> None)"
  by (simp add: merge_station_data_def check_stat_def check_if_3d_def merge_profile_def
      ex_merge_simps)

text \<open>
  C2, amended: in the profile case, the values of each input (a Series with one value
  per altitude level, the levels increasing) are interpolated linearly from its levels
  onto the vertical grid: a grid point between two levels gets the value on the line
  through the two neighbouring samples, a grid point at a level the value there. A grid
  point below the lowest level gets the value of the lowest level, and one above the
  highest level the value of the highest level: no missing value is put there.
\<close>

theorem profile_interpolation_amended:
  assumes "map_of (st_vars stat) var_name = Some (Series ts)"
      and "st_altitude stat = Levels xp"
      and "length xp = length ts" and "xp \<noteq> []" and "sorted_wrt (<) xp"
    shows "\<exists>col. profile_column m var_name stat = Inr col
             \<and> length col = length (make_default_vert_grid m)
             \<and> (\<forall>i < length col.
                   (make_default_vert_grid m ! i \<le> hd xp \<longrightarrow> col ! i = snd (hd ts))
                   \<and> (last xp \<le> make_default_vert_grid m ! i \<longrightarrow> col ! i = snd (last ts))
                   \<and> (\<forall>j. Suc j < length xp \<and> xp ! j \<le> make_default_vert_grid m ! i
                             \<and> make_default_vert_grid m ! i < xp ! Suc j \<longrightarrow>
                          col ! i =
                            (if make_default_vert_grid m ! i = xp ! j then snd (ts ! j)
                             else lin (make_default_vert_grid m ! i) (xp ! j) (snd (ts ! j))
                                    (xp ! Suc j) (snd (ts ! Suc j)))))"
proof -
  let ?g = "make_default_vert_grid m"
  let ?ps = "zip xp (map snd ts)"
  let ?col = "map (\<lambda>v. interp_point v ?ps) ?g"
  from assms have pc: "profile_column m var_name stat = Inr ?col"
    by (simp add: profile_column_def np_interp_def)
  from assms(3,4) have ne: "?ps \<noteq> []" by (cases xp; cases ts) auto
  from assms(3) have fst_ps: "map fst ?ps = xp" by simp
  with assms(5) have so: "sorted_wrt (<) (map fst ?ps)" by simp
  from assms(3,4) have hd_ps: "hd ?ps = (hd xp, snd (hd ts))"
    by (cases xp; cases ts) auto
  from assms(3,4) have last_ps: "last ?ps = (last xp, snd (last ts))"
    by (cases xp rule: rev_cases; cases ts rule: rev_cases) auto
  have nth_ps: "?ps ! j = (xp ! j, snd (ts ! j))" if "j < length xp" for j
    using that assms(3) by simp
  have "(?g ! i \<le> hd xp \<longrightarrow> ?col ! i = snd (hd ts))
        \<and> (last xp \<le> ?g ! i \<longrightarrow> ?col ! i = snd (last ts))
        \<and> (\<forall>j. Suc j < length xp \<and> xp ! j \<le> ?g ! i \<and> ?g ! i < xp ! Suc j \<longrightarrow>
               ?col ! i = (if ?g ! i = xp ! j then snd (ts ! j)
                           else lin (?g ! i) (xp ! j) (snd (ts ! j))
                                  (xp ! Suc j) (snd (ts ! Suc j))))"
    if i: "i < length ?col" for i
  proof (intro conjI impI allI)
    assume "?g ! i \<le> hd xp"
    with interp_point_below [OF ne so, of "?g ! i"] hd_ps i
    show "?col ! i = snd (hd ts)" by simp
  next
    assume "last xp \<le> ?g ! i"
    with interp_point_above [OF ne so, of "?g ! i"] last_ps i
    show "?col ! i = snd (last ts)" by simp
  next
    fix j assume j: "Suc j < length xp \<and> xp ! j \<le> ?g ! i \<and> ?g ! i < xp ! Suc j"
    then have l: "Suc j < length ?ps" using assms(3) by simp
    from j nth_ps [of j] nth_ps [of "Suc j"]
    have "fst (?ps ! j) \<le> ?g ! i" "?g ! i < fst (?ps ! Suc j)" by simp_all
    from interp_point_between [OF l so this] j nth_ps [of j] nth_ps [of "Suc j"] i
    show "?col ! i = (if ?g ! i = xp ! j then snd (ts ! j)
                           else lin (?g ! i) (xp ! j) (snd (ts ! j))
                                  (xp ! Suc j) (snd (ts ! Suc j)))"
      by simp
  qed
  with pc show ?thesis by simp
qed

theorem profile_interpolation_witness:
  "\<exists>col. profile_column ex_methods ''v'' ex_profile2 = Inr col \<and> length col = 5
      \<and> col ! 0 = Some 4 \<and> col ! 2 = Some (9 / 2) \<and> col ! 4 = Some 5"
proof -
  have a: "map_of (st_vars ex_profile2) ''v'' = Some (Series [(2, Some 4), (2, Some 5)])"
    by (simp add: ex_profile2_def ex_station_def)
  have b: "st_altitude ex_profile2 = Levels [5, 15]"
    by (simp add: ex_profile2_def ex_station_def)
  have c: "length [5, 15 :: real] = length [(2 :: int, Some (4 :: real)), (2, Some 5)]" by simp
  have d: "[5, 15 :: real] \<noteq> []" by simp
  have e: "sorted_wrt (<) [5, 15 :: real]" by simp
  have g: "make_default_vert_grid ex_methods = [0, 5, 10, 15, 20]"
    by (simp add: ex_methods_def)
  from profile_interpolation_amended [OF a b c d e, of ex_methods] obtain col where
    p: "profile_column ex_methods ''v'' ex_profile2 = Inr col"
    and l: "length col = length (make_default_vert_grid ex_methods)"
    and r: "\<forall>i < length col.
              (make_default_vert_grid ex_methods ! i \<le> hd [5, 15] \<longrightarrow>
                 col ! i = snd (hd [(2 :: int, Some (4 :: real)), (2, Some 5)]))
              \<and> (last [5, 15] \<le> make_default_vert_grid ex_methods ! i \<longrightarrow>
                   col ! i = snd (last [(2 :: int, Some (4 :: real)), (2, Some 5)]))
              \<and> (\<forall>j. Suc j < length [5, 15 :: real]
                        \<and> [5, 15] ! j \<le> make_default_vert_grid ex_methods ! i
                        \<and> make_default_vert_grid ex_methods ! i < [5, 15] ! Suc j \<longrightarrow>
                     col ! i =
                       (if make_default_vert_grid ex_methods ! i = [5, 15] ! j
                        then snd ([(2 :: int, Some (4 :: real)), (2, Some 5)] ! j)
                        else lin (make_default_vert_grid ex_methods ! i) ([5, 15] ! j)
                               (snd ([(2 :: int, Some (4 :: real)), (2, Some 5)] ! j))
                               ([5, 15] ! Suc j)
                               (snd ([(2 :: int, Some (4 :: real)), (2, Some 5)] ! Suc j))))"
    by blast
  from l g have l5: "length col = 5" by simp
  from r [rule_format, of 0] l5 g have c0: "col ! 0 = Some 4" by simp
  from r [rule_format, of 4] l5 g have c4: "col ! 4 = Some 5" by simp
  from r [rule_format, of 2] l5 g have
    "\<forall>j. Suc j < 2 \<and> [5, 15 :: real] ! j \<le> 10 \<and> 10 < [5, 15 :: real] ! Suc j \<longrightarrow>
       col ! 2 = (if 10 = [5, 15 :: real] ! j
                  then snd ([(2 :: int, Some (4 :: real)), (2, Some 5)] ! j)
                  else lin 10 ([5, 15] ! j)
                         (snd ([(2 :: int, Some (4 :: real)), (2, Some 5)] ! j))
                         ([5, 15] ! Suc j)
                         (snd ([(2 :: int, Some (4 :: real)), (2, Some 5)] ! Suc j)))"
    by simp
  from this [rule_format, of 0] have c2: "col ! 2 = Some (9 / 2)"
    by (simp add: lin_def)
  from p l5 c0 c2 c4 show ?thesis by blast
qed

subsection \<open>Mixed flat and profile inputs\<close>

text \<open>
  The check for mixed inputs in the first loop looks back only: a flat input after a
  profile is reported there, a flat input before a profile is not. In that order the
  loop ends with \<^verbatim>\<open>is_3d\<close> set, the flat input goes into the profile case, and
  \<^verbatim>\<open>numpy.interp\<close> raises on its altitude, which is a number and no array of levels.
\<close>

lemma mixed_inputs_example:
  "check_stats ''v'' None False [ex_flat, ex_profile1] False False
     = Inr ([ex_flat, ex_profile1], True, False)
   \<and> check_stats ''v'' None False [ex_profile1, ex_flat] False False
     = Inl MixedProfileAndFlat
   \<and> merge_station_data ex_methods [ex_flat, ex_profile1] ''v'' None True False
     = Inl InterpBadArrays"
  by (simp add: merge_station_data_def check_stat_def check_if_3d_def merge_profile_def
      ex_merge_simps)

lemma check_stat_altitude:
  "check_stat v pa fill s = Inr s' \<Longrightarrow> st_altitude s' = st_altitude s"
  by (auto simp: check_stat_def to_ts_helper_def get_var_ts_type_def
      split: option.splits var_data.splits if_splits sum.splits)

lemma check_stat_3d:
  "check_stat v pa fill s = Inr s' \<Longrightarrow> check_if_3d s' v = check_if_3d s v"
  by (simp add: check_if_3d_def check_stat_altitude)

lemma check_stats_after_profile:
  "check_stats v pa fill stats True h = Inr r \<Longrightarrow> \<forall>s \<in> set stats. check_if_3d s v"
proof (induction stats arbitrary: h r)
  case Nil
  then show ?case by simp
next
  case (Cons s stats)
  from Cons.prems obtain s' where s': "check_stat v pa fill s = Inr s'"
    by (auto split: sum.splits)
  with Cons.prems have p: "check_if_3d s' v"
    by (auto split: if_splits)
  with s' Cons.prems obtain r' where
    "check_stats v pa fill stats True
       (if map_of (st_data_err s') v \<noteq> None then True else h) = Inr r'"
    by (auto split: sum.splits)
  from Cons.IH [OF this] p check_stat_3d [OF s'] show ?case by simp
qed

lemma check_stats_is_3d:
  "check_stats v pa fill stats i h = Inr (stats', i', h') \<Longrightarrow>
     i \<or> (\<exists>s \<in> set stats. check_if_3d s v) \<Longrightarrow> i'"
proof (induction stats arbitrary: i h stats')
  case Nil
  then show ?case by simp
next
  case (Cons s stats)
  from Cons.prems(1) obtain s' r where s': "check_stat v pa fill s = Inr s'"
    and r: "check_stats v pa fill stats (if check_if_3d s' v then True else i)
              (if map_of (st_data_err s') v \<noteq> None then True else h) = Inr (r, i', h')"
    by (auto split: sum.splits if_splits)
  from Cons.prems(2) check_stat_3d [OF s']
  have "(if check_if_3d s' v then True else i) \<or> (\<exists>s \<in> set stats. check_if_3d s v)"
    by auto
  from Cons.IH [OF r this] show ?case .
qed

lemma check_stats_flat_first:
  assumes "check_stats v pa fill stats False h = Inr (stats', i', h')"
      and "flat \<in> set stats" and "\<not> check_if_3d flat v"
  shows "\<exists>s' rest. stats' = s' # rest \<and> \<not> check_if_3d s' v"
proof (cases stats)
  case Nil
  with assms(2) show ?thesis by simp
next
  case (Cons s stats0)
  with assms(1) obtain s' r where s': "check_stat v pa fill s = Inr s'"
    and r: "check_stats v pa fill stats0 (if check_if_3d s' v then True else False)
              (if map_of (st_data_err s') v \<noteq> None then True else h) = Inr (r, i', h')"
    and st: "stats' = s' # r"
    by (auto split: sum.splits if_splits)
  have "\<not> check_if_3d s' v"
  proof
    assume p: "check_if_3d s' v"
    with r check_stats_after_profile have "\<forall>x \<in> set stats0. check_if_3d x v"
      by fastforce
    with p check_stat_3d [OF s'] Cons assms(2,3) show False by auto
  qed
  with st show ?thesis by simp
qed

lemma profile_columns_flat_first:
  assumes "\<not> check_if_3d s v"
  shows "\<exists>e. profile_columns m v h (s # rest) None = Inl e"
proof -
  from assms obtain a where a: "st_altitude s = Scalar a"
    by (auto simp: check_if_3d_def split: altitude.splits)
  then have "\<exists>e. profile_column m v s = Inl e"
    by (auto simp: profile_column_def np_interp_def split: option.splits var_data.splits)
  then show ?thesis by auto
qed

text \<open>
  C3: a group of inputs in which, for the variable, one input is flat and another is a
  profile makes \<^verbatim>\<open>merge_station_data\<close> raise, in whatever order the inputs come: either
  the first loop raises, or the flat inputs all come first, and then the first input is
  flat and the profile case raises on it.
\<close>

theorem mixed_inputs_raise:
  assumes "flat \<in> set stats" and "\<not> check_if_3d flat var_name"
      and "prof \<in> set stats" and "check_if_3d prof var_name"
    shows "\<exists>e. merge_station_data m stats var_name pref_attr sort_by_largest
                  fill_missing_nan = Inl e"
proof (cases "check_stats var_name pref_attr fill_missing_nan stats False False")
  case (Inl e)
  then show ?thesis by (simp add: merge_station_data_def)
next
  case (Inr r)
  obtain stats' i' h' where r: "r = (stats', i', h')" by (cases r)
  from check_stats_is_3d [OF Inr [unfolded r]] assms(3,4) have i': "i'" by auto
  from check_stats_flat_first [OF Inr [unfolded r] assms(1,2)]
  obtain s' rest where st: "stats' = s' # rest" and f: "\<not> check_if_3d s' var_name"
    by blast
  from profile_columns_flat_first [OF f, of m h' rest]
  have "\<exists>e. merge_profile m stats' var_name h' = Inl e"
    using st by (auto simp: merge_profile_def split: sum.splits)
  with Inr r i' show ?thesis
    by (auto simp: merge_station_data_def)
qed

theorem mixed_inputs_raise_witness:
  "(\<exists>e. merge_station_data ex_methods [ex_flat, ex_profile1] ''v'' None True False = Inl e)
   \<and> (\<exists>e. merge_station_data ex_methods [ex_profile1, ex_flat] ''v'' None True False = Inl e)"
proof -
  have f: "\<not> check_if_3d ex_flat ''v''"
    by (simp add: check_if_3d_def ex_flat_def ex_station_def)
  have p: "check_if_3d ex_profile1 ''v''"
    by (simp add: check_if_3d_def ex_profile1_def ex_station_def)
  have 1: "ex_flat \<in> set [ex_flat, ex_profile1]" "ex_profile1 \<in> set [ex_flat, ex_profile1]"
    by simp_all
  have 2: "ex_flat \<in> set [ex_profile1, ex_flat]" "ex_profile1 \<in> set [ex_profile1, ex_flat]"
    by simp_all
  from mixed_inputs_raise [OF 1(1) f 1(2) p, of ex_methods None True False]
    mixed_inputs_raise [OF 2(1) f 2(2) p, of ex_methods None True False]
  show ?thesis by simp
qed

subsection \<open>The order of the flat merge\<close>

lemma sort_keys_Inr:
  "sort_keys v pa stats = Inr ks \<Longrightarrow>
     map snd ks = stats \<and> (\<forall>p \<in> set ks. sort_key_of v pa (snd p) = Inr (fst p))"
proof (induction stats arbitrary: ks)
  case Nil
  then show ?case by simp
next
  case (Cons s stats)
  from Cons.prems obtain k ks' where k: "sort_key_of v pa s = Inr k"
    and r: "sort_keys v pa stats = Inr ks'" and ks: "ks = (k, s) # ks'"
    by (auto split: sum.splits)
  from Cons.IH [OF r] k ks show ?case by simp
qed

lemma sort_key_of_meaning:
  assumes "sort_key_of v pa s = Inr k"
  shows "(\<forall>a. pa = Some a \<longrightarrow> map_of (st_attrs s) a = Some k)
         \<and> (pa = None \<longrightarrow>
              (\<exists>ts. map_of (st_vars s) v = Some (Series ts)
                 \<and> k = int (length (filter (\<lambda>(t, x). x \<noteq> None) ts))))"
proof (cases pa)
  case None
  with assms show ?thesis
    by (auto simp: sort_key_of_def split: option.splits var_data.splits)
next
  case (Some a)
  with assms show ?thesis
    by (auto simp: sort_key_of_def split: option.splits)
qed

lemma sort_keys_total:
  "\<forall>s \<in> set stats. \<exists>k. sort_key_of v pa s = Inr k \<Longrightarrow> \<exists>ks. sort_keys v pa stats = Inr ks"
  by (induction stats) auto

lemma check_stat_key:
  assumes "check_stat v pa fill stat = Inr stat'"
  shows "\<exists>k. sort_key_of v pa stat' = Inr k"
proof -
  from assms have attrs: "st_attrs stat' = st_attrs stat"
    and a: "\<And>a. pa = Some a \<Longrightarrow> map_of (st_attrs stat) a \<noteq> None"
    and d: "\<exists>ts. map_of (st_vars stat') v = Some (Series ts)"
    by (auto simp: check_stat_def to_ts_helper_def get_var_ts_type_def update_conv'
        split: option.splits var_data.splits if_splits sum.splits)
  show ?thesis
  proof (cases pa)
    case None
    with d show ?thesis by (auto simp: sort_key_of_def)
  next
    case (Some a)
    with a [OF Some] attrs show ?thesis by (auto simp: sort_key_of_def)
  qed
qed

lemma check_stats_keys:
  "check_stats v pa fill stats i h = Inr (stats', i', h') \<Longrightarrow>
     \<forall>s \<in> set stats'. \<exists>k. sort_key_of v pa s = Inr k"
proof (induction stats arbitrary: i h stats')
  case Nil
  then show ?case by simp
next
  case (Cons s stats)
  from Cons.prems obtain s1 r where s1: "check_stat v pa fill s = Inr s1"
    and r: "check_stats v pa fill stats
              (if check_if_3d s1 v then True else i)
              (if map_of (st_data_err s1) v \<noteq> None then True else h) = Inr (r, i', h')"
    and st: "stats' = s1 # r"
    by (auto split: sum.splits if_splits)
  from Cons.IH [OF r] check_stat_key [OF s1] st show ?case by simp
qed

text \<open>
  C4: in the flat case the inputs (as the first loop leaves them) are paired with their
  keys: the value of the preference attribute if one is given, else the number of
  samples of the variable that are not NaN. They are sorted ascending by key, the order
  is reversed if \<^verbatim>\<open>sort_by_largest\<close> is set, the first station of this order is the
  seed, and the others are merged into it one after the other in this order.
\<close>

theorem flat_merge_order:
  assumes "check_stats var_name pref_attr fill_missing_nan stats False False
             = Inr (stats', False, has_errs)"
  shows "\<exists>ks. sort_keys var_name pref_attr stats' = Inr ks \<and> map snd ks = stats'
           \<and> (\<forall>p \<in> set ks.
                 (\<forall>a. pref_attr = Some a \<longrightarrow> map_of (st_attrs (snd p)) a = Some (fst p))
                 \<and> (pref_attr = None \<longrightarrow>
                      (\<exists>ts. map_of (st_vars (snd p)) var_name = Some (Series ts)
                         \<and> fst p = int (length (filter (\<lambda>(t, x). x \<noteq> None) ts)))))
           \<and> sorted (map fst (sort_key fst ks))
           \<and> mset (sort_key fst ks) = mset ks
           \<and> order_stats var_name pref_attr sort_by_largest stats'
               = Inr (if sort_by_largest then rev (map snd (sort_key fst ks))
                      else map snd (sort_key fst ks))
           \<and> merge_station_data m stats var_name pref_attr sort_by_largest fill_missing_nan
               = (case (if sort_by_largest then rev (map snd (sort_key fst ks))
                        else map snd (sort_key fst ks)) of
                    [] \<Rightarrow> Inl PopFromEmptyList
                  | seed # rest \<Rightarrow>
                      (case merge_others m var_name rest seed of
                         Inl e \<Rightarrow> Inl e
                       | Inr merged \<Rightarrow>
                           if fill_missing_nan
                           then insert_nans_timeseries m (Flat merged) var_name
                           else Inr (Flat merged)))"
proof -
  from sort_keys_total [OF check_stats_keys [OF assms]]
  obtain ks where ks: "sort_keys var_name pref_attr stats' = Inr ks" by blast
  from sort_keys_Inr [OF ks] have sn: "map snd ks = stats'"
    and key: "\<forall>p \<in> set ks. sort_key_of var_name pref_attr (snd p) = Inr (fst p)"
    by simp_all
  have meaning: "\<forall>p \<in> set ks.
                 (\<forall>a. pref_attr = Some a \<longrightarrow> map_of (st_attrs (snd p)) a = Some (fst p))
                 \<and> (pref_attr = None \<longrightarrow>
                      (\<exists>ts. map_of (st_vars (snd p)) var_name = Some (Series ts)
                         \<and> fst p = int (length (filter (\<lambda>(t, x). x \<noteq> None) ts))))"
  proof
    fix p assume "p \<in> set ks"
    with key have "sort_key_of var_name pref_attr (snd p) = Inr (fst p)" by simp
    then show "(\<forall>a. pref_attr = Some a \<longrightarrow> map_of (st_attrs (snd p)) a = Some (fst p))
                 \<and> (pref_attr = None \<longrightarrow>
                      (\<exists>ts. map_of (st_vars (snd p)) var_name = Some (Series ts)
                         \<and> fst p = int (length (filter (\<lambda>(t, x). x \<noteq> None) ts))))"
      by (rule sort_key_of_meaning)
  qed
  have os: "order_stats var_name pref_attr sort_by_largest stats'
               = Inr (if sort_by_largest then rev (map snd (sort_key fst ks))
                      else map snd (sort_key fst ks))"
    using ks by (simp add: order_stats_def Let_def)
  have ms: "merge_station_data m stats var_name pref_attr sort_by_largest fill_missing_nan
               = (case (if sort_by_largest then rev (map snd (sort_key fst ks))
                        else map snd (sort_key fst ks)) of
                    [] \<Rightarrow> Inl PopFromEmptyList
                  | seed # rest \<Rightarrow>
                      (case merge_others m var_name rest seed of
                         Inl e \<Rightarrow> Inl e
                       | Inr merged \<Rightarrow>
                           if fill_missing_nan
                           then insert_nans_timeseries m (Flat merged) var_name
                           else Inr (Flat merged)))"
    using assms os
    by (simp add: merge_station_data_def merge_flat_def split: list.splits sum.splits)
  from ks sn meaning os ms show ?thesis
    by (intro exI [of _ ks]) simp
qed

theorem flat_merge_order_witness:
  "merge_station_data ex_methods [ex_flat1, ex_flat2, ex_flat3] ''v''
       (Some ''revision_date'') True False
     = Inr (Flat (ex_flat1 \<lparr> st_attrs := [(''revision_date'', 3), (''revision_date'', 2),
                                            (''revision_date'', 1)] \<rparr>))
   \<and> merge_station_data ex_methods [ex_flat1, ex_flat2, ex_flat3] ''v'' None False False
     = Inr (Flat (ex_flat1 \<lparr> st_attrs := [(''revision_date'', 3), (''revision_date'', 2),
                                            (''revision_date'', 1)] \<rparr>))"
proof -
  let ?stats = "[ex_flat1, ex_flat2, ex_flat3]"
  have c1: "check_stats ''v'' (Some ''revision_date'') False ?stats False False
              = Inr (?stats, False, False)"
    by (simp add: check_stat_def check_if_3d_def ex_flat1_def ex_flat2_def ex_flat3_def
        ex_station_def)
  have k1: "sort_keys ''v'' (Some ''revision_date'') ?stats
              = Inr [(3, ex_flat1), (1, ex_flat2), (2, ex_flat3)]"
    by (simp add: sort_key_of_def ex_flat1_def ex_flat2_def ex_flat3_def ex_station_def)
  from flat_merge_order [OF c1, of True ex_methods] k1
  have 1: "merge_station_data ex_methods ?stats ''v'' (Some ''revision_date'') True False
     = Inr (Flat (ex_flat1 \<lparr> st_attrs := [(''revision_date'', 3), (''revision_date'', 2),
                                            (''revision_date'', 1)] \<rparr>))"
    by (simp add: ex_methods_def ex_flat1_def ex_flat2_def ex_flat3_def ex_station_def)
  have c2: "check_stats ''v'' None False ?stats False False = Inr (?stats, False, False)"
    by (simp add: check_stat_def check_if_3d_def ex_flat1_def ex_flat2_def ex_flat3_def
        ex_station_def)
  have k2: "sort_keys ''v'' None ?stats = Inr [(1, ex_flat1), (2, ex_flat2), (1, ex_flat3)]"
    by (simp add: sort_key_of_def ex_flat1_def ex_flat2_def ex_flat3_def ex_station_def)
  from flat_merge_order [OF c2, of False ex_methods] k2
  have 2: "merge_station_data ex_methods ?stats ''v'' None False False
     = Inr (Flat (ex_flat1 \<lparr> st_attrs := [(''revision_date'', 3), (''revision_date'', 2),
                                            (''revision_date'', 1)] \<rparr>))"
    by (simp add: ex_methods_def ex_flat1_def ex_flat2_def ex_flat3_def ex_station_def)
  from 1 2 show ?thesis by simp
qed

end
